theory Spec2Isabelle
  imports Main "HOL-Library.Log_Nat" "HOL-Library.AList"
begin

text \<open>
  The bracket engine of the tournament schedule: the clock arithmetic, the builder of the
  bracket of fifteen games, the winner and team resolvers and the day gates.  The
  repository holds this code in three copies that agree on every function modelled here.
  With it come the page of the variant that keeps its scores in the local storage (its
  score inputs and its reset button) and the scores endpoint of the remote variant.  The
  HTML that the page writes, the sign-in and the transport are left out; of the endpoint,
  the answer it gives when a call fails unexpectedly is left out too.
\<close>

section \<open>JavaScript values used by the schedule engine\<close>

text \<open>
  Strings are lists of 8-bit characters: the model covers the Latin-1 part of JavaScript's
  UTF-16 strings.  A number is a finite value, one of the two infinities or NaN; a finite
  value is carried as a rational (every binary64 number is one; the two zeros are
  identified, which no comparison of the engine tells apart).
\<close>

datatype jsnum = Fin rat | PosInf | NegInf | NaN

datatype jsval = JUndefined | JNull | JBool bool | JNum jsnum | JStr string

text \<open>\<^verbatim>\<open>Number.isFinite\<close>, \<^verbatim>\<open>===\<close> and \<^verbatim>\<open>>\<close> on numbers.\<close>

fun isFinite :: "jsnum \<Rightarrow> bool" where
  "isFinite (Fin _) = True"
| "isFinite _ = False"

fun num_eq :: "jsnum \<Rightarrow> jsnum \<Rightarrow> bool" where
  "num_eq NaN _ = False"
| "num_eq _ NaN = False"
| "num_eq x y = (x = y)"

fun num_gt :: "jsnum \<Rightarrow> jsnum \<Rightarrow> bool" where
  "num_gt NaN _ = False"
| "num_gt _ NaN = False"
| "num_gt (Fin x) (Fin y) = (y < x)"
| "num_gt PosInf y = (y \<noteq> PosInf)"
| "num_gt x NegInf = (x \<noteq> NegInf)"
| "num_gt _ _ = False"

subsection \<open>Characters, white space and digits\<close>

text \<open>
  The white space of \<^verbatim>\<open>String.prototype.trim\<close>, of \<^verbatim>\<open>\s\<close> and of the numeric
  string grammar: TAB, LF, VT, FF, CR, SP and NBSP (the code points below 256).
\<close>

definition is_space :: "char \<Rightarrow> bool" where
  "is_space c = (c \<in> set [CHR 0x09, CHR 0x0A, CHR 0x0B, CHR 0x0C, CHR 0x0D, CHR 0x20, CHR 0xA0])"

definition trim :: "string \<Rightarrow> string" where
  "trim s = rev (dropWhile is_space (rev (dropWhile is_space s)))"

definition is_digit :: "char \<Rightarrow> bool" where
  "is_digit c = (c \<in> set ''0123456789'')"

definition digit_val :: "char \<Rightarrow> nat" where
  "digit_val c = of_char c - 48"

text \<open>The value of a string of decimal digits (\<^verbatim>\<open>parseInt(s, 10)\<close> on such a string).\<close>

definition digits_val :: "string \<Rightarrow> nat" where
  "digits_val s = foldl (\<lambda>acc c. 10 * acc + digit_val c) 0 s"

text \<open>
  \<^verbatim>\<open>toUpperCase\<close> on the ASCII letters (the engine applies it to the meridiem group of a
  matched time only).
\<close>

definition upper_char :: "char \<Rightarrow> char" where
  "upper_char c =
     (case map_of (zip ''abcdefghijklmnopqrstuvwxyz'' ''ABCDEFGHIJKLMNOPQRSTUVWXYZ'') c of
        None \<Rightarrow> c
      | Some u \<Rightarrow> u)"

definition toUpperCase :: "string \<Rightarrow> string" where
  "toUpperCase s = map upper_char s"

text \<open>\<^verbatim>\<open>String(n)\<close> for a natural number, and \<^verbatim>\<open>padStart(2, "0")\<close> on it.\<close>

definition digit_char :: "nat \<Rightarrow> char" where
  "digit_char d = ''0123456789'' ! d"

fun string_of_nat :: "nat \<Rightarrow> string" where
  "string_of_nat n = (if n < 10 then [digit_char n]
                      else string_of_nat (n div 10) @ [digit_char (n mod 10)])"

declare string_of_nat.simps [simp del]

definition pad2 :: "nat \<Rightarrow> string" where
  "pad2 n = (let s = string_of_nat n in if length s < 2 then replicate (2 - length s) CHR ''0'' @ s else s)"

subsection \<open>Coercion to a number\<close>

text \<open>
  Rounding of a rational to the nearest binary64 value, ties to even; the result is
  infinite from \<open>2 ^ 1024\<close> on.
\<close>

definition to_double :: "rat \<Rightarrow> jsnum" where
  "to_double q =
     (if q = 0 then Fin 0
      else let m = \<bar>q\<bar>;
               k0 = bitlen (fst (quotient_of m)) - bitlen (snd (quotient_of m));
               k = (if m < power_int 2 k0 then k0 - 1 else k0);
               e = max (k - 52) (- 1074);
               scaled = m * power_int 2 (- e);
               fl = \<lfloor>scaled\<rfloor>;
               fr = scaled - of_int fl;
               r = (if 1 / 2 < fr \<or> (fr = 1 / 2 \<and> odd fl) then fl + 1 else fl);
               v = of_int r * power_int 2 e
           in if 2 ^ 1024 \<le> v then (if q < 0 then NegInf else PosInf)
              else Fin (if q < 0 then - v else v))"

text \<open>Digits of a given radix (for the \<^verbatim>\<open>0x\<close>, \<^verbatim>\<open>0o\<close> and \<^verbatim>\<open>0b\<close> literals).\<close>

definition radix_digit :: "char \<Rightarrow> nat option" where
  "radix_digit c =
     (let n = (of_char c :: nat) in
      if 48 \<le> n \<and> n \<le> 57 then Some (n - 48)
      else if 97 \<le> n \<and> n \<le> 102 then Some (n - 87)
      else if 65 \<le> n \<and> n \<le> 70 then Some (n - 55)
      else None)"

definition radix_val :: "nat \<Rightarrow> string \<Rightarrow> nat option" where
  "radix_val r s =
     (if s = [] \<or> \<not> list_all (\<lambda>c. case radix_digit c of None \<Rightarrow> False | Some d \<Rightarrow> d < r) s
      then None
      else Some (foldl (\<lambda>acc c. r * acc + the (radix_digit c)) 0 s))"

text \<open>The exponent part \<^verbatim>\<open>e[+-]?digits\<close>, or nothing.\<close>

definition exponent_part :: "string \<Rightarrow> int option" where
  "exponent_part s =
     (case s of
        [] \<Rightarrow> Some 0
      | c # t \<Rightarrow>
          if c \<noteq> CHR ''e'' \<and> c \<noteq> CHR ''E'' then None
          else (case t of
                  [] \<Rightarrow> None
                | d # u \<Rightarrow>
                    let ds = (if d = CHR ''+'' \<or> d = CHR ''-'' then u else t) in
                    if ds = [] \<or> \<not> list_all is_digit ds then None
                    else Some (if d = CHR ''-'' then - int (digits_val ds) else int (digits_val ds))))"

text \<open>An unsigned decimal literal: \<^verbatim>\<open>digits[.digits][exp]\<close> or \<^verbatim>\<open>.digits[exp]\<close>.\<close>

definition unsigned_decimal :: "string \<Rightarrow> rat option" where
  "unsigned_decimal s =
     (let ip = takeWhile is_digit s;
          r1 = dropWhile is_digit s;
          dot = (r1 \<noteq> [] \<and> hd r1 = CHR ''.'');
          fp = (if dot then takeWhile is_digit (tl r1) else []);
          r2 = (if dot then dropWhile is_digit (tl r1) else r1)
      in if ip = [] \<and> fp = [] then None
         else (case exponent_part r2 of
                 None \<Rightarrow> None
               | Some ex \<Rightarrow>
                   Some ((of_nat (digits_val ip) + of_nat (digits_val fp) / 10 ^ length fp)
                         * power_int 10 ex)))"

text \<open>\<^verbatim>\<open>Number(s)\<close> on a string: the numeric string grammar, NaN outside it.\<close>

definition string_to_number :: "string \<Rightarrow> jsnum" where
  "string_to_number s =
     (let t = trim s in
      if t = [] then Fin 0
      else if t = ''Infinity'' \<or> t = ''+Infinity'' then PosInf
      else if t = ''-Infinity'' then NegInf
      else if take 2 t = ''0x'' \<or> take 2 t = ''0X'' then
        (case radix_val 16 (drop 2 t) of None \<Rightarrow> NaN | Some n \<Rightarrow> to_double (of_nat n))
      else if take 2 t = ''0o'' \<or> take 2 t = ''0O'' then
        (case radix_val 8 (drop 2 t) of None \<Rightarrow> NaN | Some n \<Rightarrow> to_double (of_nat n))
      else if take 2 t = ''0b'' \<or> take 2 t = ''0B'' then
        (case radix_val 2 (drop 2 t) of None \<Rightarrow> NaN | Some n \<Rightarrow> to_double (of_nat n))
      else if hd t = CHR ''-'' then
        (case unsigned_decimal (tl t) of None \<Rightarrow> NaN | Some q \<Rightarrow> to_double (- q))
      else if hd t = CHR ''+'' then
        (case unsigned_decimal (tl t) of None \<Rightarrow> NaN | Some q \<Rightarrow> to_double q)
      else (case unsigned_decimal t of None \<Rightarrow> NaN | Some q \<Rightarrow> to_double q))"

text \<open>\<^verbatim>\<open>Number(v)\<close>, on the values that a score entry or a request body carries.\<close>

fun Number :: "jsval \<Rightarrow> jsnum" where
  "Number JUndefined = NaN"
| "Number JNull = Fin 0"
| "Number (JBool b) = Fin (if b then 1 else 0)"
| "Number (JNum n) = n"
| "Number (JStr s) = string_to_number s"

section \<open>Time arithmetic\<close>

datatype error = BadTimeFormat string

text \<open>
  The match of \<^verbatim>\<open>/^(\d{1,2}):(\d{2})\s*(AM|PM)$/i\<close>, giving the three groups.  Every
  piece of the pattern is followed by a character it cannot match itself, so the greedy
  match is the only one: one or two digits up to the colon, two digits, white space, and the
  two letters that end the string.
\<close>

definition match_time :: "string \<Rightarrow> (string \<times> string \<times> string) option" where
  "match_time s =
     (let g1 = takeWhile is_digit (take 2 s);
          r1 = drop (length g1) s
      in if g1 = [] then None
         else (case r1 of
                 [] \<Rightarrow> None
               | c # r2 \<Rightarrow>
                   if c \<noteq> CHR '':'' then None
                   else let g2 = take 2 r2;
                            r3 = dropWhile is_space (drop 2 r2)
                        in if length g2 = 2 \<and> list_all is_digit g2
                              \<and> (toUpperCase r3 = ''AM'' \<or> toUpperCase r3 = ''PM'')
                           then Some (g1, g2, r3) else None))"

definition parseTime12h :: "string \<Rightarrow> error + (nat \<times> nat)" where
  "parseTime12h str =
     (case match_time (trim str) of
        None \<Rightarrow> Inl (BadTimeFormat str)
      | Some (g1, g2, g3) \<Rightarrow>
          let h = digits_val g1;
              mins = digits_val g2;
              ap = toUpperCase g3;
              h = (if ap = ''PM'' \<and> h \<noteq> 12 then h + 12 else h);
              h = (if ap = ''AM'' \<and> h = 12 then 0 else h)
          in Inr (h, mins))"

definition formatTime12h :: "nat \<Rightarrow> nat \<Rightarrow> string" where
  "formatTime12h h24 mins =
     (let ap = (if 12 \<le> h24 then ''PM'' else ''AM'');
          h = h24 mod 12;
          h = (if h = 0 then 12 else h)
      in string_of_nat h @ '':'' @ pad2 mins @ '' '' @ ap)"

definition addMinutes :: "string \<Rightarrow> nat \<Rightarrow> error + string" where
  "addMinutes timeStr minsToAdd =
     (case parseTime12h timeStr of
        Inl e \<Rightarrow> Inl e
      | Inr (h, mins) \<Rightarrow>
          let total = h * 60 + mins + minsToAdd;
              h24 = (total div 60) mod 24;
              m = total mod 60
          in Inr (formatTime12h h24 m))"

section \<open>The bracket graph\<close>

text \<open>
  A game of the bracket.  \<open>teamA\<close>, \<open>teamB\<close> and \<open>label\<close> are absent (\<open>None\<close>) where the
  object literal of the source has no such property.  \<open>gid\<close> is the property \<^verbatim>\<open>id\<close> of
  the source, and \<open>allGames\<close> its property \<^verbatim>\<open>all\<close>.
\<close>

record game =
  gid :: string
  day :: string
  timeSlot :: string
  hour :: string
  court :: string
  teamA :: "string option"
  teamB :: "string option"
  dependsOn :: "string list"
  label :: "string option"

record games =
  day1 :: "game list"
  day2 :: "game list"
  day3 :: "game list"
  allGames :: "game list"

record config =
  courtName :: "string option"
  day1MorningStart :: "string option"
  day1EveningStart :: "string option"
  day2MorningStart :: "string option"
  day2EveningStart :: "string option"
  day3MorningStart :: "string option"
  day3EveningStart :: "string option"

text \<open>\<^verbatim>\<open>x || d\<close> on an optional string: the default replaces an absent and an empty one.\<close>

definition or_default :: "string option \<Rightarrow> string \<Rightarrow> string" where
  "or_default x d = (case x of None \<Rightarrow> d | Some s \<Rightarrow> if s = [] then d else s)"

text \<open>\<^verbatim>\<open>xs[i]\<close>: \<^verbatim>\<open>undefined\<close> out of range.\<close>

definition nth_opt :: "'a list \<Rightarrow> nat \<Rightarrow> 'a option" where
  "nth_opt xs i = (if i < length xs then Some (xs ! i) else None)"

text \<open>
  The sixteen team names: the override if it is an array, else the global list if it is
  one, else nothing; a slot that is absent or empty gets its placeholder, and every name
  is trimmed after that choice.
\<close>

definition getTeamsFromAdmin :: "string list option \<Rightarrow> string list option \<Rightarrow> string list" where
  "getTeamsFromAdmin teamsOverride windowTeams =
     (let adminTeams = (case teamsOverride of
                          Some ts \<Rightarrow> ts
                        | None \<Rightarrow> (case windowTeams of Some ts \<Rightarrow> ts | None \<Rightarrow> []))
      in map (\<lambda>i. trim (or_default (nth_opt adminTeams i) (''Team '' @ string_of_nat (i + 1))))
             [0..<16])"

text \<open>The game that iteration \<open>i\<close> of the Day 1 loop pushes.\<close>

definition day1_game ::
  "nat \<Rightarrow> string \<Rightarrow> string \<Rightarrow> string \<Rightarrow> string option \<Rightarrow> string option \<Rightarrow> game"
where
  "day1_game i slot hr crt tA tB =
     \<lparr>gid = ''D1G'' @ string_of_nat (i + 1), day = ''Day 1'', timeSlot = slot, hour = hr,
      court = crt, teamA = tA, teamB = tB, dependsOn = [], label = None\<rparr>"

text \<open>The loop over the eight games of Day 1; a start time that does not parse throws.\<close>

function day1_loop ::
  "string list \<Rightarrow> string \<Rightarrow> nat \<Rightarrow> string \<Rightarrow> string \<Rightarrow> nat \<Rightarrow> game list \<Rightarrow> error + game list"
where
  "day1_loop teams crt gap d1MorningStart d1EveningStart i acc =
     (if i < 8 then
        (let tA = nth_opt teams (i * 2);
             tB = nth_opt teams (i * 2 + 1);
             slot = (if i < 4 then ''Morning'' else ''Evening'');
             base = (if i < 4 then d1MorningStart else d1EveningStart);
             idx = (if i < 4 then i else i - 4)
         in case addMinutes base (idx * gap) of
              Inl e \<Rightarrow> Inl e
            | Inr hr \<Rightarrow>
                day1_loop teams crt gap d1MorningStart d1EveningStart (i + 1)
                  (acc @ [day1_game i slot hr crt tA tB]))
      else Inr acc)"
  by pat_completeness auto
termination
  by (relation "measure (\<lambda>(teams, crt, gap, m, e, i, acc). 8 - i)") auto

declare day1_loop.simps [simp del]

text \<open>A game of Day 2 or Day 3: no teams of its own, two games it depends on.\<close>

definition later_game ::
  "string \<Rightarrow> string \<Rightarrow> string \<Rightarrow> string \<Rightarrow> string \<Rightarrow> string list \<Rightarrow> string option \<Rightarrow> game"
where
  "later_game i d slot hr crt deps lbl =
     \<lparr>gid = i, day = d, timeSlot = slot, hour = hr, court = crt,
      teamA = None, teamB = None, dependsOn = deps, label = lbl\<rparr>"

text \<open>Sequencing of computations that may throw.\<close>

definition bind_err :: "error + 'a \<Rightarrow> ('a \<Rightarrow> error + 'b) \<Rightarrow> error + 'b" where
  "bind_err r f = (case r of Inl e \<Rightarrow> Inl e | Inr x \<Rightarrow> f x)"

definition buildGames :: "string list \<Rightarrow> config \<Rightarrow> error + games" where
  "buildGames teams cfg =
     (let crt = or_default (courtName cfg) ''Dolphins Court'';
          gap = 60;
          d1MorningStart = or_default (day1MorningStart cfg) ''8:00 AM'';
          d1EveningStart = or_default (day1EveningStart cfg) ''4:00 PM'';
          d2MorningStart = or_default (day2MorningStart cfg) ''9:00 AM'';
          d2EveningStart = or_default (day2EveningStart cfg) ''5:00 PM'';
          d3MorningStart = or_default (day3MorningStart cfg) ''10:00 AM'';
          d3EveningStart = or_default (day3EveningStart cfg) ''5:00 PM''
      in bind_err (day1_loop teams crt gap d1MorningStart d1EveningStart 0 []) (\<lambda>d1.
         bind_err (addMinutes d2MorningStart (0 * gap)) (\<lambda>h21.
         bind_err (addMinutes d2MorningStart (1 * gap)) (\<lambda>h22.
         bind_err (addMinutes d2EveningStart (0 * gap)) (\<lambda>h23.
         bind_err (addMinutes d2EveningStart (1 * gap)) (\<lambda>h24.
         bind_err (addMinutes d3MorningStart (0 * gap)) (\<lambda>h31.
         bind_err (addMinutes d3EveningStart (0 * gap)) (\<lambda>h32.
         bind_err (addMinutes d3EveningStart (1 * gap)) (\<lambda>h33.
           let d2 = [later_game ''D2G1'' ''Day 2'' ''Morning'' h21 crt [''D1G1'', ''D1G2''] None,
                     later_game ''D2G2'' ''Day 2'' ''Morning'' h22 crt [''D1G3'', ''D1G4''] None,
                     later_game ''D2G3'' ''Day 2'' ''Evening'' h23 crt [''D1G5'', ''D1G6''] None,
                     later_game ''D2G4'' ''Day 2'' ''Evening'' h24 crt [''D1G7'', ''D1G8''] None];
               d3 = [later_game ''D3SF1'' ''Day 3'' ''Morning'' h31 crt [''D2G1'', ''D2G2'']
                       (Some ''Semifinal 1''),
                     later_game ''D3SF2'' ''Day 3'' ''Evening'' h32 crt [''D2G3'', ''D2G4'']
                       (Some ''Semifinal 2''),
                     later_game ''D3F'' ''Day 3'' ''Evening'' h33 crt [''D3SF1'', ''D3SF2'']
                       (Some ''Championship Game'')]
           in Inr \<lparr>day1 = d1, day2 = d2, day3 = d3, allGames = d1 @ d2 @ d3\<rparr>)))))))))"

section \<open>The score ledger, winners and day gates\<close>

text \<open>
  A score record: the two entries as they were stored (the digits typed into an input, or
  what the scores endpoint returned) and the copies of the two team names.
\<close>

record score =
  score_a :: jsval
  score_b :: jsval
  score_teamA :: string
  score_teamB :: string

record state =
  scores :: "string \<rightharpoonup> score"

text \<open>The winner of a game; \<open>None\<close> is the \<^verbatim>\<open>null\<close> of an undecided game.\<close>

definition getWinner :: "string \<Rightarrow> state \<Rightarrow> string option" where
  "getWinner gameId st =
     (case scores st gameId of
        None \<Rightarrow> None
      | Some s \<Rightarrow>
          let a = Number (score_a s);
              b = Number (score_b s)
          in if \<not> isFinite a \<or> \<not> isFinite b then None
             else if num_eq a b then None
             else if num_gt a b then Some (score_teamA s) else Some (score_teamB s))"

text \<open>Truthiness of an optional string: absent and empty are falsy.\<close>

definition truthy :: "string option \<Rightarrow> bool" where
  "truthy x = (case x of None \<Rightarrow> False | Some s \<Rightarrow> s \<noteq> [])"

definition resolveTeamsForGame :: "game \<Rightarrow> state \<Rightarrow> string \<times> string" where
  "resolveTeamsForGame g st =
     (if truthy (teamA g) \<and> truthy (teamB g) then (the (teamA g), the (teamB g))
      else let g1 = nth_opt (dependsOn g) 0;
               g2 = nth_opt (dependsOn g) 1;
               w1 = (if truthy g1 then getWinner (the g1) st else None);
               w2 = (if truthy g2 then getWinner (the g2) st else None);
               tA = (if truthy w1 then the w1
                     else if truthy g1 then ''Winner '' @ the g1 else ''TBD'');
               tB = (if truthy w2 then the w2
                     else if truthy g2 then ''Winner '' @ the g2 else ''TBD'')
           in (tA, tB))"

text \<open>The test that \<^verbatim>\<open>isDayComplete\<close> applies to every game of a day.\<close>

definition game_complete :: "state \<Rightarrow> game \<Rightarrow> bool" where
  "game_complete st g =
     (case scores st (gid g) of
        None \<Rightarrow> False
      | Some s \<Rightarrow>
          let a = Number (score_a s);
              b = Number (score_b s)
          in isFinite a \<and> isFinite b \<and> \<not> num_eq a b)"

definition isDayComplete :: "game list \<Rightarrow> state \<Rightarrow> bool" where
  "isDayComplete dayGames st = list_all (game_complete st) dayGames"

text \<open>The lock of each day, as the object with the three keys.\<close>

definition computeLockedDays :: "games \<Rightarrow> state \<Rightarrow> (string \<rightharpoonup> bool)" where
  "computeLockedDays gs st =
     (let day1Complete = isDayComplete (day1 gs) st;
          day2Complete = isDayComplete (day2 gs) st
      in [''Day 1'' \<mapsto> False, ''Day 2'' \<mapsto> \<not> day1Complete, ''Day 3'' \<mapsto> \<not> day2Complete])"

text \<open>\<^verbatim>\<open>lockedDays[d]\<close> used as a condition: a missing key is falsy.\<close>

definition is_locked :: "(string \<rightharpoonup> bool) \<Rightarrow> string \<Rightarrow> bool" where
  "is_locked lockedDays d = (lockedDays d = Some True)"

definition filterGames :: "game list \<Rightarrow> string \<Rightarrow> string \<Rightarrow> game list" where
  "filterGames gs dayFilter timeFilter =
     filter (\<lambda>g. (dayFilter = ''All'' \<or> day g = dayFilter)
                \<and> (timeFilter = ''All'' \<or> timeSlot g = timeFilter)) gs"

text \<open>
  Following the spec's words, for comparison with \<open>game_complete\<close>: the record of the
  game exists and both entries are finite numbers that are not equal.
\<close>

definition spec_complete :: "state \<Rightarrow> string \<Rightarrow> bool" where
  "spec_complete st i =
     (case scores st i of
        None \<Rightarrow> False
      | Some s \<Rightarrow>
          (case Number (score_a s) of
             Fin x \<Rightarrow> (case Number (score_b s) of Fin y \<Rightarrow> x \<noteq> y | _ \<Rightarrow> False)
           | _ \<Rightarrow> False))"

section \<open>The page of the local variant\<close>

text \<open>
  What the closure of \<^verbatim>\<open>initSchedule\<close> holds: the bracket (a constant), the state, the
  item of the local storage (as the state it was serialised from, \<open>None\<close> when the key is
  absent) and the values of the two filter controls.
\<close>

record app =
  app_games :: games
  app_state :: state
  app_storage :: "state option"
  app_dayFilter :: string
  app_timeFilter :: string


text \<open>
  The effect of rendering one game on the state: its record is created with empty entries
  if it has none, and the copies of the team names are brought up to date.
\<close>

definition render_game :: "state \<Rightarrow> game \<Rightarrow> state" where
  "render_game st g =
     (let tms = resolveTeamsForGame g st
      in case scores st (gid g) of
           None \<Rightarrow>
             st\<lparr>scores := (scores st)(gid g \<mapsto>
                   \<lparr>score_a = JStr [], score_b = JStr [],
                    score_teamA = fst tms, score_teamB = snd tms\<rparr>)\<rparr>
         | Some s \<Rightarrow>
             st\<lparr>scores := (scores st)(gid g \<mapsto>
                   s\<lparr>score_teamA := fst tms, score_teamB := snd tms\<rparr>)\<rparr>)"

definition renderGames :: "game list \<Rightarrow> state \<Rightarrow> state" where
  "renderGames gs st = foldl render_game st gs"

definition render :: "app \<Rightarrow> app" where
  "render ap =
     (let filtered = filterGames (allGames (app_games ap)) (app_dayFilter ap) (app_timeFilter ap);
          st = renderGames filtered (app_state ap)
      in ap\<lparr>app_state := st, app_storage := Some st\<rparr>)"



text \<open>\<^verbatim>\<open>replace(/[^\d]/g, "")\<close>.\<close>

definition digits_only :: "string \<Rightarrow> string" where
  "digits_only v = filter is_digit v"

text \<open>\<^verbatim>\<open>state.scores[gameId][side] = val\<close> for the two sides the inputs carry.\<close>

definition set_side :: "string \<Rightarrow> string \<Rightarrow> score \<Rightarrow> score" where
  "set_side side val s =
     (if side = ''a'' then s\<lparr>score_a := JStr val\<rparr>
      else if side = ''b'' then s\<lparr>score_b := JStr val\<rparr>
      else s)"

text \<open>
  The lookup table \<^verbatim>\<open>gamesById\<close>, filled by a loop over all games: the last game with
  the id.  The table of the source is a plain object, which also answers to the property
  names it inherits (\<^verbatim>\<open>constructor\<close>, \<^verbatim>\<open>__proto__\<close> and the like); no game and no
  input of the page carries such an id, and the model covers the other ids.
\<close>

definition gamesById :: "games \<Rightarrow> string \<Rightarrow> game option" where
  "gamesById gs i = find (\<lambda>g. gid g = i) (rev (allGames gs))"

text \<open>The input event of a score field, in the local variant.\<close>

definition score_input :: "string \<Rightarrow> string \<Rightarrow> string \<Rightarrow> app \<Rightarrow> app" where
  "score_input gameId side v ap =
     (let val = digits_only v
      in case gamesById (app_games ap) gameId of
           None \<Rightarrow> ap
         | Some gm \<Rightarrow>
             let lockedDays = computeLockedDays (app_games ap) (app_state ap)
             in if is_locked lockedDays (day gm) then render ap
                else let st = app_state ap;
                         tms = resolveTeamsForGame gm st;
                         s0 = (case scores st gameId of
                                 None \<Rightarrow> \<lparr>score_a = JStr [], score_b = JStr [],
                                           score_teamA = fst tms, score_teamB = snd tms\<rparr>
                               | Some s \<Rightarrow> s);
                         st1 = st\<lparr>scores := (scores st)(gameId \<mapsto> set_side side val s0)\<rparr>;
                         tms1 = resolveTeamsForGame gm st1;
                         st2 = st1\<lparr>scores := (scores st1)(gameId \<mapsto>
                                  (set_side side val s0)\<lparr>score_teamA := fst tms1,
                                                          score_teamB := snd tms1\<rparr>)\<rparr>
                     in render (ap\<lparr>app_state := st2, app_storage := Some st2\<rparr>))"

section \<open>The scores endpoint\<close>

text \<open>
  The table of the endpoint maps a game id to the two numbers of its row.  The identity
  service (\<open>getUser\<close>: the user id of a token, if it is valid) and the outcome of the table
  operation (\<open>dbError\<close>: the message of a failure) are supplied from outside.
\<close>

record request =
  req_method :: string
  req_authorization :: "string option"
  req_gameId :: "string option"
  req_a :: jsval
  req_b :: jsval

datatype response =
    JsonError nat string
  | JsonScores "(string \<times> jsnum \<times> jsnum) list" bool
  | JsonOk
  | MethodNotAllowed

definition startsWith :: "string \<Rightarrow> string \<Rightarrow> bool" where
  "startsWith s p = (take (length p) s = p)"

definition getBearerToken :: "request \<Rightarrow> string" where
  "getBearerToken req =
     (let auth = or_default (req_authorization req) []
      in if \<not> startsWith auth ''Bearer '' then [] else trim (drop (length ''Bearer '') auth))"

definition canEditFromRequest :: "string list \<Rightarrow> (string \<Rightarrow> string option) \<Rightarrow> request \<Rightarrow> bool" where
  "canEditFromRequest allowlist getUser req =
     (let token = getBearerToken req
      in if token = [] then False
         else (case getUser token of None \<Rightarrow> False | Some userId \<Rightarrow> userId \<in> set allowlist))"

definition handler ::
  "string list \<Rightarrow> (string \<Rightarrow> string option) \<Rightarrow> string option \<Rightarrow> request
     \<Rightarrow> (string \<times> jsnum \<times> jsnum) list \<Rightarrow> response \<times> (string \<times> jsnum \<times> jsnum) list"
where
  "handler allowlist getUser dbError req rows =
     (if req_method req = ''GET'' then
        (case dbError of
           Some msg \<Rightarrow> (JsonError 500 msg, rows)
         | None \<Rightarrow> (JsonScores rows (canEditFromRequest allowlist getUser req), rows))
      else if req_method req = ''POST'' then
        (let auth = or_default (req_authorization req) []
         in if \<not> startsWith auth ''Bearer '' then (JsonError 401 ''Missing token'', rows)
            else (case getUser (trim (drop (length ''Bearer '') auth)) of
                    None \<Rightarrow> (JsonError 401 ''Invalid token'', rows)
                  | Some userId \<Rightarrow>
                      if userId \<notin> set allowlist then (JsonError 403 ''Not allowed'', rows)
                      else if \<not> truthy (req_gameId req) then (JsonError 400 ''Missing gameId'', rows)
                      else let aNum = Number (req_a req);
                               bNum = Number (req_b req)
                           in if \<not> isFinite aNum \<or> \<not> isFinite bNum
                              then (JsonError 400 ''Scores must be numbers'', rows)
                              else if num_eq aNum bNum
                              then (JsonError 400 ''No ties allowed'', rows)
                              else (case dbError of
                                      Some msg \<Rightarrow> (JsonError 500 msg, rows)
                                    | None \<Rightarrow>
                                        (JsonOk, AList.update (the (req_gameId req)) (aNum, bNum) rows))))
      else (MethodNotAllowed, rows))"

section \<open>Sample inputs\<close>

definition default_config :: config where
  "default_config =
     \<lparr>courtName = None, day1MorningStart = None, day1EveningStart = None,
      day2MorningStart = None, day2EveningStart = None,
      day3MorningStart = None, day3EveningStart = None\<rparr>"

text \<open>The bracket of the default team names and start times.\<close>

definition sample_games :: games where
  "sample_games =
     (case buildGames (getTeamsFromAdmin None None) default_config of
        Inr g \<Rightarrow> g
      | Inl _ \<Rightarrow> \<lparr>day1 = [], day2 = [], day3 = [], allGames = []\<rparr>)"

definition rec_of :: "jsval \<Rightarrow> jsval \<Rightarrow> string \<Rightarrow> string \<Rightarrow> score" where
  "rec_of x y tA tB = \<lparr>score_a = x, score_b = y, score_teamA = tA, score_teamB = tB\<rparr>"

definition ledger_of :: "(string \<times> score) list \<Rightarrow> state" where
  "ledger_of rs = \<lparr>scores = map_of rs\<rparr>"

text \<open>Every game of Day 1 decided, nothing else entered.\<close>

definition day1_done :: "(string \<times> score) list" where
  "day1_done =
     [(''D1G1'', rec_of (JStr ''10'') (JStr ''3'') ''Team 1'' ''Team 2''),
      (''D1G2'', rec_of (JStr ''2'') (JStr ''7'') ''Team 3'' ''Team 4''),
      (''D1G3'', rec_of (JStr ''4'') (JStr ''1'') ''Team 5'' ''Team 6''),
      (''D1G4'', rec_of (JStr ''8'') (JStr ''6'') ''Team 7'' ''Team 8''),
      (''D1G5'', rec_of (JStr ''3'') (JStr ''9'') ''Team 9'' ''Team 10''),
      (''D1G6'', rec_of (JStr ''5'') (JStr ''2'') ''Team 11'' ''Team 12''),
      (''D1G7'', rec_of (JStr ''1'') (JStr ''0'') ''Team 13'' ''Team 14''),
      (''D1G8'', rec_of (JStr ''6'') (JStr ''7'') ''Team 15'' ''Team 16'')]"

text \<open>Every game of Day 2 decided.\<close>

definition day2_done :: "(string \<times> score) list" where
  "day2_done =
     [(''D2G1'', rec_of (JStr ''4'') (JStr ''2'') ''Team 1'' ''Team 4''),
      (''D2G2'', rec_of (JStr ''1'') (JStr ''3'') ''Team 5'' ''Team 7''),
      (''D2G3'', rec_of (JStr ''9'') (JStr ''8'') ''Team 10'' ''Team 11''),
      (''D2G4'', rec_of (JStr ''0'') (JStr ''2'') ''Team 13'' ''Team 16'')]"

text \<open>
  Both days decided, and the first game of Day 1 then edited to a tie: Day 1 is never
  locked, so its inputs stay editable after Day 2 has been played.
\<close>

definition tie_after_day2 :: "(string \<times> score) list" where
  "tie_after_day2 =
     (''D1G1'', rec_of (JStr ''5'') (JStr ''5'') ''Team 1'' ''Team 2'') # day1_done @ day2_done"

text \<open>Day 1 decided, and one entry of its first game then emptied.\<close>

definition blank_side :: "(string \<times> score) list" where
  "blank_side = (''D1G1'', rec_of (JStr []) (JStr ''3'') ''Team 1'' ''Team 2'') # day1_done"

text \<open>The bracket of a list whose second name is white space only.\<close>

definition blank_name_games :: games where
  "blank_name_games =
     (case buildGames (getTeamsFromAdmin (Some [''Lakers'', ''   '']) None) default_config of
        Inr g \<Rightarrow> g
      | Inl _ \<Rightarrow> \<lparr>day1 = [], day2 = [], day3 = [], allGames = []\<rparr>)"

text \<open>A page of the local variant with Day 1 decided, showing every game.\<close>

definition sample_app :: app where
  "sample_app =
     \<lparr>app_games = sample_games, app_state = ledger_of day1_done,
      app_storage = Some (ledger_of day1_done),
      app_dayFilter = ''All'', app_timeFilter = ''All''\<rparr>"

text \<open>A page of the local variant before any score is entered.\<close>

definition fresh_app :: app where
  "fresh_app =
     \<lparr>app_games = sample_games, app_state = ledger_of [], app_storage = None,
      app_dayFilter = ''All'', app_timeFilter = ''All''\<rparr>"

text \<open>An identity service that knows one token, and a request that carries it.\<close>

definition demo_getUser :: "string \<Rightarrow> string option" where
  "demo_getUser token = (if token = ''tok'' then Some ''admin-1'' else None)"

definition post_req :: "jsval \<Rightarrow> jsval \<Rightarrow> request" where
  "post_req x y =
     \<lparr>req_method = ''POST'', req_authorization = Some ''Bearer tok'',
      req_gameId = Some ''D1G1'', req_a = x, req_b = y\<rparr>"

section \<open>Properties\<close>

subsection \<open>Auxiliary facts\<close>

lemma string_of_digit: "n < 10 \<Longrightarrow> string_of_nat n = [digit_char n]"
  by (simp add: string_of_nat.simps)

lemma isFinite_iff: "isFinite n \<longleftrightarrow> (\<exists>x. n = Fin x)"
  by (cases n) auto

lemma string_to_number_empty: "string_to_number [] = Fin 0"
  by (simp add: string_to_number_def trim_def)

lemma addMinutes_Inr:
  "parseTime12h t = Inr (h, m) \<Longrightarrow>
   addMinutes t k = Inr (formatTime12h (((h * 60 + m + k) div 60) mod 24) ((h * 60 + m + k) mod 60))"
  by (simp add: addMinutes_def Let_def)

lemma addMinutes_ok_iff: "(\<exists>r. addMinutes t k = Inr r) \<longleftrightarrow> (\<exists>p. parseTime12h t = Inr p)"
  by (cases "parseTime12h t") (auto simp: addMinutes_def Let_def split: prod.splits)

lemma bind_err_Inr: "bind_err r f = Inr y \<longleftrightarrow> (\<exists>x. r = Inr x \<and> f x = Inr y)"
  by (cases r) (auto simp: bind_err_def)

text \<open>The Day 1 loop, run from the start: what it returns, and when it returns.\<close>

lemma day1_loop_Inr:
  assumes "day1_loop teams crt gap m e 0 [] = Inr d1"
  shows "\<exists>h1 h2 h3 h4 h5 h6 h7 h8.
      addMinutes m 0 = Inr h1 \<and> addMinutes e 0 = Inr h5 \<and>
      d1 = [day1_game 0 ''Morning'' h1 crt (nth_opt teams 0) (nth_opt teams 1),
            day1_game 1 ''Morning'' h2 crt (nth_opt teams 2) (nth_opt teams 3),
            day1_game 2 ''Morning'' h3 crt (nth_opt teams 4) (nth_opt teams 5),
            day1_game 3 ''Morning'' h4 crt (nth_opt teams 6) (nth_opt teams 7),
            day1_game 4 ''Evening'' h5 crt (nth_opt teams 8) (nth_opt teams 9),
            day1_game 5 ''Evening'' h6 crt (nth_opt teams 10) (nth_opt teams 11),
            day1_game 6 ''Evening'' h7 crt (nth_opt teams 12) (nth_opt teams 13),
            day1_game 7 ''Evening'' h8 crt (nth_opt teams 14) (nth_opt teams 15)]"
  using assms
  by (simp add: day1_loop.simps Let_def eval_nat_numeral split: sum.splits) blast

lemma day1_loop_ok:
  assumes "parseTime12h m = Inr pm" "parseTime12h e = Inr pe"
  shows "\<exists>d1. day1_loop teams crt gap m e 0 [] = Inr d1"
proof -
  obtain a b c d where "pm = (a, b)" "pe = (c, d)" by (cases pm, cases pe) auto
  with assms show ?thesis
    by (simp add: day1_loop.simps Let_def addMinutes_Inr)
qed

text \<open>The shape of every bracket that \<open>buildGames\<close> returns.\<close>

lemma buildGames_Inr:
  assumes "buildGames teams cfg = Inr g"
  shows "\<exists>crt h1 h2 h3 h4 h5 h6 h7 h8 k1 k2 k3 k4 s1 s2 s3.
      day1 g = [day1_game 0 ''Morning'' h1 crt (nth_opt teams 0) (nth_opt teams 1),
            day1_game 1 ''Morning'' h2 crt (nth_opt teams 2) (nth_opt teams 3),
            day1_game 2 ''Morning'' h3 crt (nth_opt teams 4) (nth_opt teams 5),
            day1_game 3 ''Morning'' h4 crt (nth_opt teams 6) (nth_opt teams 7),
            day1_game 4 ''Evening'' h5 crt (nth_opt teams 8) (nth_opt teams 9),
            day1_game 5 ''Evening'' h6 crt (nth_opt teams 10) (nth_opt teams 11),
            day1_game 6 ''Evening'' h7 crt (nth_opt teams 12) (nth_opt teams 13),
            day1_game 7 ''Evening'' h8 crt (nth_opt teams 14) (nth_opt teams 15)] \<and>
      day2 g = [later_game ''D2G1'' ''Day 2'' ''Morning'' k1 crt [''D1G1'', ''D1G2''] None,
                later_game ''D2G2'' ''Day 2'' ''Morning'' k2 crt [''D1G3'', ''D1G4''] None,
                later_game ''D2G3'' ''Day 2'' ''Evening'' k3 crt [''D1G5'', ''D1G6''] None,
                later_game ''D2G4'' ''Day 2'' ''Evening'' k4 crt [''D1G7'', ''D1G8''] None] \<and>
      day3 g = [later_game ''D3SF1'' ''Day 3'' ''Morning'' s1 crt [''D2G1'', ''D2G2'']
                       (Some ''Semifinal 1''),
                later_game ''D3SF2'' ''Day 3'' ''Evening'' s2 crt [''D2G3'', ''D2G4'']
                       (Some ''Semifinal 2''),
                later_game ''D3F'' ''Day 3'' ''Evening'' s3 crt [''D3SF1'', ''D3SF2'']
                       (Some ''Championship Game'')] \<and>
      allGames g = day1 g @ day2 g @ day3 g"
proof -
  from assms obtain d1 k1 k2 k3 k4 s1 s2 s3 crt m e where
    d1: "day1_loop teams crt 60 m e 0 [] = Inr d1" and
    g: "g = \<lparr>day1 = d1,
          day2 = [later_game ''D2G1'' ''Day 2'' ''Morning'' k1 crt [''D1G1'', ''D1G2''] None,
                later_game ''D2G2'' ''Day 2'' ''Morning'' k2 crt [''D1G3'', ''D1G4''] None,
                later_game ''D2G3'' ''Day 2'' ''Evening'' k3 crt [''D1G5'', ''D1G6''] None,
                later_game ''D2G4'' ''Day 2'' ''Evening'' k4 crt [''D1G7'', ''D1G8''] None],
          day3 = [later_game ''D3SF1'' ''Day 3'' ''Morning'' s1 crt [''D2G1'', ''D2G2'']
                       (Some ''Semifinal 1''),
                later_game ''D3SF2'' ''Day 3'' ''Evening'' s2 crt [''D2G3'', ''D2G4'']
                       (Some ''Semifinal 2''),
                later_game ''D3F'' ''Day 3'' ''Evening'' s3 crt [''D3SF1'', ''D3SF2'']
                       (Some ''Championship Game'')],
          allGames = d1 @ [later_game ''D2G1'' ''Day 2'' ''Morning'' k1 crt [''D1G1'', ''D1G2''] None,
                later_game ''D2G2'' ''Day 2'' ''Morning'' k2 crt [''D1G3'', ''D1G4''] None,
                later_game ''D2G3'' ''Day 2'' ''Evening'' k3 crt [''D1G5'', ''D1G6''] None,
                later_game ''D2G4'' ''Day 2'' ''Evening'' k4 crt [''D1G7'', ''D1G8''] None] @
                [later_game ''D3SF1'' ''Day 3'' ''Morning'' s1 crt [''D2G1'', ''D2G2'']
                       (Some ''Semifinal 1''),
                later_game ''D3SF2'' ''Day 3'' ''Evening'' s2 crt [''D2G3'', ''D2G4'']
                       (Some ''Semifinal 2''),
                later_game ''D3F'' ''Day 3'' ''Evening'' s3 crt [''D3SF1'', ''D3SF2'']
                       (Some ''Championship Game'')]\<rparr>"
    unfolding buildGames_def Let_def bind_err_Inr by blast
  from day1_loop_Inr [OF d1] g show ?thesis
    by (elim exE conjE) (simp, blast)
qed

lemma buildGames_ids:
  assumes "buildGames teams cfg = Inr g"
  shows "map gid (day1 g) = [''D1G1'', ''D1G2'', ''D1G3'', ''D1G4'', ''D1G5'', ''D1G6'', ''D1G7'', ''D1G8'']"
    and "map gid (day2 g) = [''D2G1'', ''D2G2'', ''D2G3'', ''D2G4'']"
    and "map gid (day3 g) = [''D3SF1'', ''D3SF2'', ''D3F'']"
  using buildGames_Inr [OF assms]
  by (auto simp: day1_game_def later_game_def string_of_digit digit_char_def)

subsection \<open>Coercion of digit strings\<close>

text \<open>Rounding is exact on the natural numbers below \<open>2 ^ 53\<close>.\<close>

lemma to_double_steps:
  assumes "q \<noteq> 0"
    and "k0 = bitlen (fst (quotient_of \<bar>q\<bar>)) - bitlen (snd (quotient_of \<bar>q\<bar>))"
    and "k = (if \<bar>q\<bar> < power_int 2 k0 then k0 - 1 else k0)"
    and "ex = max (k - 52) (- 1074)"
    and "fl = \<lfloor>\<bar>q\<bar> * power_int 2 (- ex)\<rfloor>"
    and "fr = \<bar>q\<bar> * power_int 2 (- ex) - of_int fl"
    and "r = (if 1 / 2 < fr \<or> (fr = 1 / 2 \<and> odd fl) then fl + 1 else fl)"
    and "v = of_int r * power_int 2 ex"
  shows "to_double q = (if 2 ^ 1024 \<le> v then (if q < 0 then NegInf else PosInf)
              else Fin (if q < 0 then - v else v))"
  unfolding to_double_def Let_def assms(2-8) using assms(1) by (simp only: if_False)


lemma to_double_nat:
  assumes "n < 2 ^ 53"
  shows "to_double (of_nat n) = Fin (of_nat n)"
proof (cases "n = 0")
  case True
  then show ?thesis by (simp add: to_double_def)
next
  case False
  define b where "b = bitlen (int n)"
  define j where "j = nat (53 - b)"
  have pos: "0 < int n" using False by simp
  from bitlen_bounds [OF pos] have lo: "2 ^ nat (b - 1) \<le> int n"
    by (simp add: b_def)
  have b1: "1 \<le> b"
    using pos by (simp add: b_def bitlen_alt_def)
  have b53: "b \<le> 53"
    using assms by (simp add: b_def bitlen_le_iff_power)
  have q: "quotient_of (of_nat n) = (int n, 1)"
    using quotient_of_int [of "int n"] by (simp add: Rat.of_int_def)
  have bl1: "bitlen 1 = 1"
    by (simp add: bitlen_alt_def)
  have pw: "power_int (2::rat) (b - 1) = 2 ^ nat (b - 1)"
    using b1 by (simp add: power_int_def)
  have ge: "\<not> (of_nat n :: rat) < power_int 2 (b - 1)"
  proof -
    have "(of_int (2 ^ nat (b - 1)) :: rat) \<le> of_int (int n)"
      using lo by (simp only: of_int_le_iff)
    then show ?thesis by (simp add: pw)
  qed
  have small: "\<not> (2 ^ 1024 \<le> (of_nat n :: rat))"
  proof -
    have "(of_nat n :: rat) < of_nat (2 ^ 53)" using assms by (simp only: of_nat_less_iff)
    also have "\<dots> \<le> 2 ^ 1024" by simp
    finally show ?thesis by simp
  qed
  have "to_double (of_nat n) =
      (if 2 ^ 1024 \<le> (of_nat n :: rat) then (if (of_nat n :: rat) < 0 then NegInf else PosInf)
       else Fin (if (of_nat n :: rat) < 0 then - of_nat n else of_nat n))"
  proof (rule to_double_steps [where ?k0.0 = "b - 1" and k = "b - 1" and ex = "- int j"
        and fl = "int n * 2 ^ j" and fr = 0 and r = "int n * 2 ^ j"])
    show "(of_nat n :: rat) \<noteq> 0" using False by simp
    show "b - 1 = bitlen (fst (quotient_of \<bar>of_nat n\<bar>)) - bitlen (snd (quotient_of \<bar>of_nat n\<bar>))"
      by (simp add: q bl1 b_def)
    show "b - 1 = (if \<bar>of_nat n :: rat\<bar> < power_int 2 (b - 1) then b - 1 - 1 else b - 1)"
      using ge by simp
    show "- int j = max (b - 1 - 52) (- 1074)"
      using b1 b53 by (simp add: j_def)
    have sc: "\<bar>of_nat n :: rat\<bar> * power_int 2 (- (- int j)) = of_int (int n * 2 ^ j)"
      by simp
    show "int n * 2 ^ j = \<lfloor>\<bar>of_nat n :: rat\<bar> * power_int 2 (- (- int j))\<rfloor>"
      by (simp only: sc floor_of_int)
    show "(0::rat) = \<bar>of_nat n\<bar> * power_int 2 (- (- int j)) - of_int (int n * 2 ^ j)"
      by (simp only: sc diff_self)
    show "int n * 2 ^ j = (if 1 / 2 < (0::rat) \<or> ((0::rat) = 1 / 2 \<and> odd (int n * 2 ^ j))
        then int n * 2 ^ j + 1 else int n * 2 ^ j)"
      by simp
    show "(of_nat n :: rat) = of_int (int n * 2 ^ j) * power_int 2 (- int j)"
      by (simp add: power_int_minus)
  qed
  with small show ?thesis by simp
qed

text \<open>A string of digits is coerced to the number it writes.\<close>

lemma digits_not_space: "is_digit c \<Longrightarrow> \<not> is_space c"
  by (auto simp: is_digit_def is_space_def)

lemma dropWhile_hd: "xs \<noteq> [] \<Longrightarrow> \<not> P (hd xs) \<Longrightarrow> dropWhile P xs = xs"
  by (cases xs) auto

lemma trim_id:
  assumes "s \<noteq> []" "\<not> is_space (hd s)" "\<not> is_space (last s)"
  shows "trim s = s"
proof -
  have "dropWhile is_space s = s"
    using assms(1,2) by (rule dropWhile_hd)
  moreover have "dropWhile is_space (rev s) = rev s"
    using assms(1,3) by (intro dropWhile_hd) (simp_all add: hd_rev)
  ultimately show ?thesis by (simp add: trim_def)
qed

lemma trim_digits: "list_all is_digit ds \<Longrightarrow> trim ds = ds"
proof (cases "ds = []")
  case True
  then show ?thesis by (simp add: trim_def)
next
  case False
  assume "list_all is_digit ds"
  with False have "is_digit (hd ds)" "is_digit (last ds)"
    by (simp_all add: list_all_iff)
  with False show ?thesis
    by (intro trim_id) (simp_all add: digits_not_space)
qed

lemma unsigned_decimal_digits:
  assumes "ds \<noteq> []" "list_all is_digit ds"
  shows "unsigned_decimal ds = Some (of_nat (digits_val ds))"
proof -
  have tw: "takeWhile is_digit ds = ds" and dw: "dropWhile is_digit ds = []"
    using assms(2) by (simp_all add: list_all_iff)
  show ?thesis
    unfolding unsigned_decimal_def Let_def tw dw
    by (simp add: exponent_part_def assms(1) digits_val_def)
qed

lemma string_to_number_digits:
  assumes "ds \<noteq> []" "list_all is_digit ds" "digits_val ds < 2 ^ 53"
  shows "string_to_number ds = Fin (of_nat (digits_val ds))"
proof -
  obtain c cs where ds: "ds = c # cs" using assms(1) by (cases ds) auto
  with assms(2) have c: "is_digit c" and cs: "list_all is_digit cs" by simp_all
  have t: "trim ds = ds" by (rule trim_digits [OF assms(2)])
  have hd: "hd ds \<noteq> CHR ''-''" "hd ds \<noteq> CHR ''+''"
    and inf: "ds \<noteq> ''Infinity''" "ds \<noteq> ''+Infinity''" "ds \<noteq> ''-Infinity''"
    using c ds by (auto simp: is_digit_def)
  have no_radix: "take 2 ds \<noteq> ''0x''" "take 2 ds \<noteq> ''0X''" "take 2 ds \<noteq> ''0o''"
      "take 2 ds \<noteq> ''0O''" "take 2 ds \<noteq> ''0b''" "take 2 ds \<noteq> ''0B''"
    using cs ds by (cases cs; auto simp: is_digit_def)+
  show ?thesis
    unfolding string_to_number_def Let_def t
    by (simp only: assms(1) hd inf no_radix if_False simp_thms
        unsigned_decimal_digits [OF assms(1,2)] to_double_nat [OF assms(3)] option.case)
qed

lemma string_to_number_samples:
  "string_to_number ''0'' = Fin 0" "string_to_number ''1'' = Fin 1"
  "string_to_number ''2'' = Fin 2" "string_to_number ''3'' = Fin 3"
  "string_to_number ''4'' = Fin 4" "string_to_number ''5'' = Fin 5"
  "string_to_number ''6'' = Fin 6" "string_to_number ''7'' = Fin 7"
  "string_to_number ''8'' = Fin 8" "string_to_number ''9'' = Fin 9"
  "string_to_number ''10'' = Fin 10"
  by (simp_all add: string_to_number_digits is_digit_def digits_val_def digit_val_def)

subsection \<open>Brackets that are built, and complete days\<close>

lemma default_starts_parse:
  "parseTime12h ''8:00 AM'' = Inr (8, 0)" "parseTime12h ''4:00 PM'' = Inr (16, 0)"
  "parseTime12h ''9:00 AM'' = Inr (9, 0)" "parseTime12h ''5:00 PM'' = Inr (17, 0)"
  "parseTime12h ''10:00 AM'' = Inr (10, 0)"
  by (simp_all add: parseTime12h_def match_time_def trim_def is_space_def is_digit_def
        toUpperCase_def upper_char_def digits_val_def digit_val_def Let_def)

lemma buildGames_ok:
  assumes "\<forall>t \<in> set [or_default (day1MorningStart cfg) ''8:00 AM'',
                      or_default (day1EveningStart cfg) ''4:00 PM'',
                      or_default (day2MorningStart cfg) ''9:00 AM'',
                      or_default (day2EveningStart cfg) ''5:00 PM'',
                      or_default (day3MorningStart cfg) ''10:00 AM'',
                      or_default (day3EveningStart cfg) ''5:00 PM'']. \<exists>p. parseTime12h t = Inr p"
  shows "\<exists>g. buildGames teams cfg = Inr g"
proof -
  from assms obtain p1 p2 p3 p4 p5 p6 where p:
    "parseTime12h (or_default (day1MorningStart cfg) ''8:00 AM'') = Inr p1"
    "parseTime12h (or_default (day1EveningStart cfg) ''4:00 PM'') = Inr p2"
    "parseTime12h (or_default (day2MorningStart cfg) ''9:00 AM'') = Inr p3"
    "parseTime12h (or_default (day2EveningStart cfg) ''5:00 PM'') = Inr p4"
    "parseTime12h (or_default (day3MorningStart cfg) ''10:00 AM'') = Inr p5"
    "parseTime12h (or_default (day3EveningStart cfg) ''5:00 PM'') = Inr p6"
    by auto
  from day1_loop_ok [OF p(1) p(2)] obtain d1 where
    "day1_loop teams (or_default (courtName cfg) ''Dolphins Court'') 60
       (or_default (day1MorningStart cfg) ''8:00 AM'')
       (or_default (day1EveningStart cfg) ''4:00 PM'') 0 [] = Inr d1" by blast
  moreover have "\<And>t k p. parseTime12h t = Inr p \<Longrightarrow> \<exists>r. addMinutes t k = Inr r"
    using addMinutes_ok_iff by blast
  from this [OF p(3)] this [OF p(4)] this [OF p(5)] this [OF p(6)]
  have "\<And>k. \<exists>r. addMinutes (or_default (day2MorningStart cfg) ''9:00 AM'') k = Inr r"
    "\<And>k. \<exists>r. addMinutes (or_default (day2EveningStart cfg) ''5:00 PM'') k = Inr r"
    "\<And>k. \<exists>r. addMinutes (or_default (day3MorningStart cfg) ''10:00 AM'') k = Inr r"
    "\<And>k. \<exists>r. addMinutes (or_default (day3EveningStart cfg) ''5:00 PM'') k = Inr r"
    by blast+
  then obtain a b c d e f g where
    "addMinutes (or_default (day2MorningStart cfg) ''9:00 AM'') 0 = Inr a"
    "addMinutes (or_default (day2MorningStart cfg) ''9:00 AM'') 60 = Inr b"
    "addMinutes (or_default (day2EveningStart cfg) ''5:00 PM'') 0 = Inr c"
    "addMinutes (or_default (day2EveningStart cfg) ''5:00 PM'') 60 = Inr d"
    "addMinutes (or_default (day3MorningStart cfg) ''10:00 AM'') 0 = Inr e"
    "addMinutes (or_default (day3EveningStart cfg) ''5:00 PM'') 0 = Inr f"
    "addMinutes (or_default (day3EveningStart cfg) ''5:00 PM'') 60 = Inr g"
    by meson
  ultimately show ?thesis
    by (simp add: buildGames_def Let_def bind_err_def)
qed

lemma sample_games_built: "buildGames (getTeamsFromAdmin None None) default_config = Inr sample_games"
proof -
  have "\<exists>g. buildGames (getTeamsFromAdmin None None) default_config = Inr g"
    by (rule buildGames_ok) (simp add: default_config_def or_default_def default_starts_parse)
  then show ?thesis by (auto simp: sample_games_def)
qed

lemma game_complete_spec: "game_complete st g = spec_complete st (gid g)"
  by (auto simp: game_complete_def spec_complete_def Let_def split: option.splits jsnum.splits)

lemma isDayComplete_spec: "isDayComplete gs st \<longleftrightarrow> (\<forall>i \<in> set (map gid gs). spec_complete st i)"
  by (simp add: isDayComplete_def list_all_iff game_complete_spec)

lemma spec_complete_iff:
  "spec_complete st i \<longleftrightarrow>
     (\<exists>s x y. scores st i = Some s \<and> Number (score_a s) = Fin x \<and> Number (score_b s) = Fin y \<and> x \<noteq> y)"
  by (auto simp: spec_complete_def split: option.splits jsnum.splits)

lemma getWinner_incomplete:
  "\<not> spec_complete st i \<Longrightarrow> getWinner i st = None"
  by (auto simp: getWinner_def spec_complete_def Let_def isFinite_iff split: option.splits jsnum.splits)

lemma gates_built:
  assumes "buildGames teams cfg = Inr g"
  shows "\<not> is_locked (computeLockedDays g st) ''Day 1''"
    and "is_locked (computeLockedDays g st) ''Day 2'' \<longleftrightarrow>
      (\<exists>i \<in> set [''D1G1'', ''D1G2'', ''D1G3'', ''D1G4'', ''D1G5'', ''D1G6'', ''D1G7'', ''D1G8''].
          \<not> spec_complete st i)"
    and "is_locked (computeLockedDays g st) ''Day 3'' \<longleftrightarrow>
      (\<exists>i \<in> set [''D2G1'', ''D2G2'', ''D2G3'', ''D2G4'']. \<not> spec_complete st i)"
proof -
  note ids = buildGames_ids [OF assms]
  have d1: "isDayComplete (day1 g) st \<longleftrightarrow>
      (\<forall>i \<in> set [''D1G1'', ''D1G2'', ''D1G3'', ''D1G4'', ''D1G5'', ''D1G6'', ''D1G7'', ''D1G8''].
            spec_complete st i)"
    unfolding isDayComplete_spec ids(1) ..
  have d2: "isDayComplete (day2 g) st \<longleftrightarrow>
      (\<forall>i \<in> set [''D2G1'', ''D2G2'', ''D2G3'', ''D2G4'']. spec_complete st i)"
    unfolding isDayComplete_spec ids(2) ..
  have l2: "is_locked (computeLockedDays g st) ''Day 2'' \<longleftrightarrow> \<not> isDayComplete (day1 g) st"
    and l3: "is_locked (computeLockedDays g st) ''Day 3'' \<longleftrightarrow> \<not> isDayComplete (day2 g) st"
    by (simp_all add: is_locked_def computeLockedDays_def Let_def)
  show "\<not> is_locked (computeLockedDays g st) ''Day 1''"
    by (simp add: is_locked_def computeLockedDays_def Let_def)
  show "is_locked (computeLockedDays g st) ''Day 2'' \<longleftrightarrow>
      (\<exists>i \<in> set [''D1G1'', ''D1G2'', ''D1G3'', ''D1G4'', ''D1G5'', ''D1G6'', ''D1G7'', ''D1G8''].
          \<not> spec_complete st i)"
    unfolding l2 d1 by blast
  show "is_locked (computeLockedDays g st) ''Day 3'' \<longleftrightarrow>
      (\<exists>i \<in> set [''D2G1'', ''D2G2'', ''D2G3'', ''D2G4'']. \<not> spec_complete st i)"
    unfolding l3 d2 by blast
qed

lemma spec_complete_upd_same:
  "spec_complete (st\<lparr>scores := (scores st)(i \<mapsto> s')\<rparr>) i \<longleftrightarrow>
     (\<exists>x y. Number (score_a s') = Fin x \<and> Number (score_b s') = Fin y \<and> x \<noteq> y)"
  by (auto simp: spec_complete_def split: jsnum.splits)

lemma spec_complete_upd_other:
  "j \<noteq> i \<Longrightarrow> spec_complete (st\<lparr>scores := (scores st)(i := r)\<rparr>) j = spec_complete st j"
  by (simp add: spec_complete_def)

lemma spec_complete_removed: "\<not> spec_complete (st\<lparr>scores := (scores st)(i := None)\<rparr>) i"
  by (simp add: spec_complete_def)

subsection \<open>The winner of a game\<close>

text \<open>
  Claim C1.  For every game id and every ledger, \<open>getWinner\<close> is undecided (\<open>None\<close>) if
  the ledger has no record for the id, if one of the two entries is not coerced to a finite
  number, or if the two numbers are equal; otherwise it is the team name that the record
  itself carries, \<open>score_teamA\<close> when entry a is the greater and \<open>score_teamB\<close> when entry b
  is.  The bracket is no argument of the function: the names attached to the game there
  play no part.
\<close>

theorem getWinner_spec:
  "getWinner gameId st =
     (case scores st gameId of
        None \<Rightarrow> None
      | Some s \<Rightarrow>
          (case Number (score_a s) of
             Fin x \<Rightarrow>
               (case Number (score_b s) of
                  Fin y \<Rightarrow> if x = y then None
                           else if y < x then Some (score_teamA s) else Some (score_teamB s)
                | _ \<Rightarrow> None)
           | _ \<Rightarrow> None))"
  by (simp add: getWinner_def Let_def split: option.splits jsnum.splits)

theorem getWinner_spec_witness:
  "getWinner ''D1G1'' (ledger_of day1_done) = Some ''Team 1''"
  using getWinner_spec [of "''D1G1''" "ledger_of day1_done"]
  by (simp add: ledger_of_def day1_done_def rec_of_def string_to_number_samples)

text \<open>
  Claim C9.  For every score record whose entry a is the empty string and whose entry b is
  coerced to a positive finite number, \<open>getWinner\<close> resolves a winner, the record's
  \<open>score_teamB\<close>, since the empty entry is coerced to 0; and every game with that id passes
  the completeness test of the day gate.  The same holds with the two sides swapped, the
  winner then being \<open>score_teamA\<close>.
\<close>

theorem blank_entry_is_zero:
  assumes "scores st i = Some s" and "Number v = Fin y" and "0 < y"
  shows "(score_a s = JStr [] \<and> score_b s = v \<longrightarrow>
            getWinner i st = Some (score_teamB s) \<and> (\<forall>g. gid g = i \<longrightarrow> game_complete st g)) \<and>
         (score_a s = v \<and> score_b s = JStr [] \<longrightarrow>
            getWinner i st = Some (score_teamA s) \<and> (\<forall>g. gid g = i \<longrightarrow> game_complete st g))"
  using assms by (auto simp: getWinner_def game_complete_def Let_def string_to_number_empty)

theorem blank_entry_is_zero_witness:
  "getWinner ''D1G1'' (ledger_of [(''D1G1'', rec_of (JStr []) (JNum (Fin 3)) ''Team 1'' ''Team 2'')])
     = Some ''Team 2'' \<and>
   isDayComplete [day1_game 0 ''Morning'' ''8:00 AM'' ''Dolphins Court'' (Some ''Team 1'') (Some ''Team 2'')]
     (ledger_of [(''D1G1'', rec_of (JStr []) (JNum (Fin 3)) ''Team 1'' ''Team 2'')])"
  using blank_entry_is_zero [of "ledger_of [(''D1G1'', rec_of (JStr []) (JNum (Fin 3)) ''Team 1'' ''Team 2'')]"
      "''D1G1''" "rec_of (JStr []) (JNum (Fin 3)) ''Team 1'' ''Team 2''" "JNum (Fin 3)" 3]
  by (simp add: ledger_of_def rec_of_def isDayComplete_def day1_game_def string_of_digit digit_char_def)

subsection \<open>Entering scores\<close>

text \<open>
  Rendering keeps the entries of every record.  An input event on a game of Day 1, which is
  never locked, stores the digits typed on the side of the input and keeps the other side;
  the same digits typed on both sides leave a record with two equal entries.
\<close>

lemma find_day1:
  assumes "buildGames teams cfg = Inr g"
    and "i \<in> set [''D1G1'', ''D1G2'', ''D1G3'', ''D1G4'', ''D1G5'', ''D1G6'', ''D1G7'', ''D1G8'']"
  shows "\<exists>gm. gamesById g i = Some gm \<and> gid gm = i \<and> day gm = ''Day 1''"
  using buildGames_Inr [OF assms(1)] assms(2)
  by (auto simp: gamesById_def day1_game_def later_game_def string_of_digit digit_char_def)

lemma render_game_keeps:
  assumes "scores st i = Some s"
  shows "\<exists>s'. scores (render_game st g) i = Some s' \<and> score_a s' = score_a s \<and> score_b s' = score_b s"
  using assms by (auto simp: render_game_def Let_def split: option.splits)

lemma renderGames_keeps:
  assumes "scores st i = Some s"
  shows "\<exists>s'. scores (renderGames gs st) i = Some s' \<and> score_a s' = score_a s \<and> score_b s' = score_b s"
  using assms unfolding renderGames_def
proof (induction gs arbitrary: st s)
  case Nil
  then show ?case by simp
next
  case (Cons g gs)
  from render_game_keeps [OF Cons.prems, of g] obtain s1 where
    s1: "scores (render_game st g) i = Some s1" "score_a s1 = score_a s" "score_b s1 = score_b s"
    by blast
  from Cons.IH [OF s1(1)] s1(2,3) show ?case by simp
qed

lemma render_keeps:
  assumes "scores (app_state ap) i = Some s"
  shows "\<exists>s'. scores (app_state (render ap)) i = Some s' \<and> score_a s' = score_a s \<and> score_b s' = score_b s"
  using renderGames_keeps [OF assms] by (simp add: render_def Let_def)

lemma render_games: "app_games (render ap) = app_games ap"
  by (simp add: render_def Let_def)

lemma score_input_day1:
  assumes "buildGames teams cfg = Inr (app_games ap)"
    and "i \<in> set [''D1G1'', ''D1G2'', ''D1G3'', ''D1G4'', ''D1G5'', ''D1G6'', ''D1G7'', ''D1G8'']"
    and "side = ''a'' \<or> side = ''b''"
  shows "app_games (score_input i side v ap) = app_games ap \<and>
     (\<exists>s. scores (app_state (score_input i side v ap)) i = Some s \<and>
        score_a s = (if side = ''a'' then JStr (digits_only v)
                     else (case scores (app_state ap) i of None \<Rightarrow> JStr [] | Some s0 \<Rightarrow> score_a s0)) \<and>
        score_b s = (if side = ''b'' then JStr (digits_only v)
                     else (case scores (app_state ap) i of None \<Rightarrow> JStr [] | Some s0 \<Rightarrow> score_b s0)))"
proof -
  from find_day1 [OF assms(1,2)] obtain gm where
    gm: "gamesById (app_games ap) i = Some gm" "day gm = ''Day 1''"
    by blast
  have open1: "\<not> is_locked (computeLockedDays (app_games ap) (app_state ap)) (day gm)"
    unfolding gm(2) by (rule gates_built(1) [OF assms(1)])
  define s0 where "s0 = (case scores (app_state ap) i of
       None \<Rightarrow> \<lparr>score_a = JStr [], score_b = JStr [],
                 score_teamA = fst (resolveTeamsForGame gm (app_state ap)),
                 score_teamB = snd (resolveTeamsForGame gm (app_state ap))\<rparr>
     | Some s \<Rightarrow> s)"
  define st1 where "st1 = (app_state ap)\<lparr>scores := (scores (app_state ap))(i \<mapsto> set_side side (digits_only v) s0)\<rparr>"
  define st2 where "st2 = st1\<lparr>scores := (scores st1)(i \<mapsto>
       (set_side side (digits_only v) s0)\<lparr>score_teamA := fst (resolveTeamsForGame gm st1),
                                           score_teamB := snd (resolveTeamsForGame gm st1)\<rparr>)\<rparr>"
  have si: "score_input i side v ap = render (ap\<lparr>app_state := st2, app_storage := Some st2\<rparr>)"
    using open1 by (simp add: score_input_def Let_def gm(1) st2_def st1_def s0_def)
  have r: "scores st2 i = Some ((set_side side (digits_only v) s0)\<lparr>score_teamA := fst (resolveTeamsForGame gm st1),
                                           score_teamB := snd (resolveTeamsForGame gm st1)\<rparr>)"
    by (simp add: st2_def)
  from render_keeps [of "ap\<lparr>app_state := st2, app_storage := Some st2\<rparr>" i, simplified, OF r]
  obtain s' where s': "scores (app_state (score_input i side v ap)) i = Some s'"
    "score_a s' = score_a (set_side side (digits_only v) s0)"
    "score_b s' = score_b (set_side side (digits_only v) s0)"
    unfolding si by auto
  have a: "score_a (set_side side (digits_only v) s0) =
      (if side = ''a'' then JStr (digits_only v)
       else (case scores (app_state ap) i of None \<Rightarrow> JStr [] | Some s0 \<Rightarrow> score_a s0))"
    and b: "score_b (set_side side (digits_only v) s0) =
      (if side = ''b'' then JStr (digits_only v)
       else (case scores (app_state ap) i of None \<Rightarrow> JStr [] | Some s0 \<Rightarrow> score_b s0))"
    using assms(3) by (auto simp: set_side_def s0_def split: option.splits)
  have g: "app_games (score_input i side v ap) = app_games ap"
    unfolding si by (simp add: render_games)
  from g s' a b show ?thesis by simp
qed

lemma tie_submitted:
  assumes "buildGames teams cfg = Inr (app_games ap)"
    and "i \<in> set [''D1G1'', ''D1G2'', ''D1G3'', ''D1G4'', ''D1G5'', ''D1G6'', ''D1G7'', ''D1G8'']"
  shows "\<exists>s. scores (app_state (score_input i ''b'' v (score_input i ''a'' v ap))) i = Some s \<and>
     score_a s = JStr (digits_only v) \<and> score_b s = JStr (digits_only v)"
proof -
  from score_input_day1 [OF assms, of "''a''" v] obtain s1 where
    g1: "app_games (score_input i ''a'' v ap) = app_games ap"
    and s1: "scores (app_state (score_input i ''a'' v ap)) i = Some s1"
      "score_a s1 = JStr (digits_only v)"
    by auto
  from assms(1) have b1: "buildGames teams cfg = Inr (app_games (score_input i ''a'' v ap))"
    by (simp add: g1)
  from score_input_day1 [OF b1 assms(2), of "''b''" v] s1 show ?thesis
    by auto
qed

text \<open>Such an input event keeps the entries of every other record.\<close>

lemma score_input_day1_others:
  assumes "buildGames teams cfg = Inr (app_games ap)"
    and "i \<in> set [''D1G1'', ''D1G2'', ''D1G3'', ''D1G4'', ''D1G5'', ''D1G6'', ''D1G7'', ''D1G8'']"
    and "k \<noteq> i" and "scores (app_state ap) k = Some s"
  shows "\<exists>s'. scores (app_state (score_input i side v ap)) k = Some s' \<and>
     score_a s' = score_a s \<and> score_b s' = score_b s"
proof -
  from find_day1 [OF assms(1,2)] obtain gm where
    gm: "gamesById (app_games ap) i = Some gm" "day gm = ''Day 1''"
    by blast
  have open1: "\<not> is_locked (computeLockedDays (app_games ap) (app_state ap)) (day gm)"
    unfolding gm(2) by (rule gates_built(1) [OF assms(1)])
  define s0 where "s0 = (case scores (app_state ap) i of
       None \<Rightarrow> \<lparr>score_a = JStr [], score_b = JStr [],
                 score_teamA = fst (resolveTeamsForGame gm (app_state ap)),
                 score_teamB = snd (resolveTeamsForGame gm (app_state ap))\<rparr>
     | Some s \<Rightarrow> s)"
  define st1 where "st1 = (app_state ap)\<lparr>scores := (scores (app_state ap))(i \<mapsto> set_side side (digits_only v) s0)\<rparr>"
  define st2 where "st2 = st1\<lparr>scores := (scores st1)(i \<mapsto>
       (set_side side (digits_only v) s0)\<lparr>score_teamA := fst (resolveTeamsForGame gm st1),
                                           score_teamB := snd (resolveTeamsForGame gm st1)\<rparr>)\<rparr>"
  have si: "score_input i side v ap = render (ap\<lparr>app_state := st2, app_storage := Some st2\<rparr>)"
    using open1 by (simp add: score_input_def Let_def gm(1) st2_def st1_def s0_def)
  have r: "scores st2 k = Some s"
    using assms(3,4) by (simp add: st2_def st1_def)
  from render_keeps [of "ap\<lparr>app_state := st2, app_storage := Some st2\<rparr>" k, simplified, OF r]
  show ?thesis unfolding si by auto
qed

lemma score_input_keeps_complete:
  assumes "buildGames teams cfg = Inr (app_games ap)"
    and "i \<in> set [''D1G1'', ''D1G2'', ''D1G3'', ''D1G4'', ''D1G5'', ''D1G6'', ''D1G7'', ''D1G8'']"
    and "k \<noteq> i" and "spec_complete (app_state ap) k"
  shows "spec_complete (app_state (score_input i side v ap)) k"
proof -
  from assms(4) obtain s x y where
    s: "scores (app_state ap) k = Some s" "Number (score_a s) = Fin x" "Number (score_b s) = Fin y" "x \<noteq> y"
    unfolding spec_complete_iff by blast
  from score_input_day1_others [OF assms(1,2,3) s(1), of side v] s(2,3,4)
  show ?thesis unfolding spec_complete_iff by auto
qed

subsection \<open>The day gates\<close>

text \<open>
  Claim C3.  For every ledger and every bracket that \<open>buildGames\<close> returns: Day 1 is never
  locked; Day 2 is open if and only if each of the eight games of Day 1 is complete (its
  record exists and both entries are coerced to finite numbers that are not equal); Day 3
  is open if and only if each of the four games of Day 2 is complete by the same rule.
\<close>

theorem day_gate_spec:
  assumes "buildGames teams cfg = Inr g"
  shows "\<not> is_locked (computeLockedDays g st) ''Day 1'' \<and>
     (\<not> is_locked (computeLockedDays g st) ''Day 2'' \<longleftrightarrow>
        (\<forall>i \<in> set [''D1G1'', ''D1G2'', ''D1G3'', ''D1G4'', ''D1G5'', ''D1G6'', ''D1G7'', ''D1G8''].
            spec_complete st i)) \<and>
     (\<not> is_locked (computeLockedDays g st) ''Day 3'' \<longleftrightarrow>
        (\<forall>i \<in> set [''D2G1'', ''D2G2'', ''D2G3'', ''D2G4'']. spec_complete st i))"
  using gates_built [OF assms, of st] by blast

theorem day_gate_spec_witness:
  "\<not> is_locked (computeLockedDays sample_games (ledger_of day1_done)) ''Day 1'' \<and>
   \<not> is_locked (computeLockedDays sample_games (ledger_of day1_done)) ''Day 2'' \<and>
   is_locked (computeLockedDays sample_games (ledger_of day1_done)) ''Day 3''"
  using day_gate_spec [OF sample_games_built, of "ledger_of day1_done"]
  by (simp add: spec_complete_def ledger_of_def day1_done_def rec_of_def string_to_number_samples)

text \<open>
  Claim C4, as the code has it.  For every ledger in which the record of a game exists but
  is not complete (its two entries are coerced to equal numbers, or one of them is not
  coerced to a finite number), \<open>getWinner\<close> of that game is undecided, and the day after
  the game's day is locked: Day 2 for a game of Day 1, Day 3 for a game of Day 2.  The lock
  of Day 3 is decided by the records of Day 2 alone.  The witness enters the score 5 on
  both sides of the first game of Day 1, through the input handler.
\<close>

theorem incomplete_record_locks:
  assumes "buildGames teams cfg = Inr g"
    and "scores st i = Some s" and "\<not> spec_complete st i"
  shows "getWinner i st = None \<and>
     (i \<in> set [''D1G1'', ''D1G2'', ''D1G3'', ''D1G4'', ''D1G5'', ''D1G6'', ''D1G7'', ''D1G8'']
        \<longrightarrow> is_locked (computeLockedDays g st) ''Day 2'') \<and>
     (i \<in> set [''D2G1'', ''D2G2'', ''D2G3'', ''D2G4'']
        \<longrightarrow> is_locked (computeLockedDays g st) ''Day 3'') \<and>
     (is_locked (computeLockedDays g st) ''Day 3'' \<longleftrightarrow>
        (\<exists>j \<in> set [''D2G1'', ''D2G2'', ''D2G3'', ''D2G4'']. \<not> spec_complete st j))"
  unfolding gates_built [OF assms(1)]
  using assms(3) getWinner_incomplete [OF assms(3)] by blast

theorem incomplete_record_locks_witness:
  "getWinner ''D1G1''
     (app_state (score_input ''D1G1'' ''b'' ''5'' (score_input ''D1G1'' ''a'' ''5'' fresh_app))) = None \<and>
   is_locked (computeLockedDays sample_games
     (app_state (score_input ''D1G1'' ''b'' ''5'' (score_input ''D1G1'' ''a'' ''5'' fresh_app)))) ''Day 2''"
proof -
  have g: "buildGames (getTeamsFromAdmin None None) default_config = Inr (app_games fresh_app)"
    by (simp add: fresh_app_def sample_games_built)
  from tie_submitted [OF g, of "''D1G1''" "''5''"] obtain s where
    s: "scores (app_state (score_input ''D1G1'' ''b'' ''5'' (score_input ''D1G1'' ''a'' ''5'' fresh_app)))
          ''D1G1'' = Some s"
      "score_a s = JStr ''5''" "score_b s = JStr ''5''"
    by (auto simp: digits_only_def is_digit_def)
  have n: "\<not> spec_complete
      (app_state (score_input ''D1G1'' ''b'' ''5'' (score_input ''D1G1'' ''a'' ''5'' fresh_app))) ''D1G1''"
    by (simp add: spec_complete_def s string_to_number_samples)
  from incomplete_record_locks [OF sample_games_built s(1) n] show ?thesis by simp
qed

text \<open>
  Claim C4 as stated fails twice.  With the first game of Day 1 tied after Day 2 has been
  played, Day 2 is locked but Day 3 is open; and a record with one entry emptied and the
  other positive is complete, so that Day 2 stays open and the game has a winner.
\<close>

theorem tie_in_day1_counterexample:
  "scores (ledger_of tie_after_day2) ''D1G1''
     = Some (rec_of (JStr ''5'') (JStr ''5'') ''Team 1'' ''Team 2'') \<and>
   is_locked (computeLockedDays sample_games (ledger_of tie_after_day2)) ''Day 2'' \<and>
   \<not> is_locked (computeLockedDays sample_games (ledger_of tie_after_day2)) ''Day 3'' \<and>
   scores (ledger_of blank_side) ''D1G1''
     = Some (rec_of (JStr []) (JStr ''3'') ''Team 1'' ''Team 2'') \<and>
   \<not> is_locked (computeLockedDays sample_games (ledger_of blank_side)) ''Day 2'' \<and>
   getWinner ''D1G1'' (ledger_of blank_side) = Some ''Team 2''"
  unfolding gates_built [OF sample_games_built]
  by (simp add: spec_complete_def getWinner_def ledger_of_def tie_after_day2_def blank_side_def
      day1_done_def day2_done_def rec_of_def string_to_number_samples string_to_number_empty)

text \<open>The lock of Day 2 after the record of one game of Day 1 has been replaced.\<close>

lemma gate_after_update:
  assumes "buildGames teams cfg = Inr g"
    and "\<not> is_locked (computeLockedDays g st) ''Day 2''"
    and "i \<in> set [''D1G1'', ''D1G2'', ''D1G3'', ''D1G4'', ''D1G5'', ''D1G6'', ''D1G7'', ''D1G8'']"
  shows "is_locked (computeLockedDays g (st\<lparr>scores := (scores st)(i \<mapsto> s')\<rparr>)) ''Day 2'' \<longleftrightarrow>
     \<not> (\<exists>x y. Number (score_a s') = Fin x \<and> Number (score_b s') = Fin y \<and> x \<noteq> y)"
proof -
  note g2 = gates_built(2) [OF assms(1)]
  from assms(2) have all: "\<forall>j \<in> set [''D1G1'', ''D1G2'', ''D1G3'', ''D1G4'', ''D1G5'', ''D1G6'', ''D1G7'', ''D1G8''].
      spec_complete st j"
    unfolding g2 by blast
  have other: "spec_complete (st\<lparr>scores := (scores st)(i \<mapsto> s')\<rparr>) j"
    if "j \<in> set [''D1G1'', ''D1G2'', ''D1G3'', ''D1G4'', ''D1G5'', ''D1G6'', ''D1G7'', ''D1G8'']" "j \<noteq> i" for j
  proof -
    from that(2) have "spec_complete (st\<lparr>scores := (scores st)(i \<mapsto> s')\<rparr>) j = spec_complete st j"
      by (rule spec_complete_upd_other)
    with all that(1) show ?thesis by blast
  qed
  have "is_locked (computeLockedDays g (st\<lparr>scores := (scores st)(i \<mapsto> s')\<rparr>)) ''Day 2'' \<longleftrightarrow>
      \<not> spec_complete (st\<lparr>scores := (scores st)(i \<mapsto> s')\<rparr>) i"
    unfolding g2 using assms(3) other by blast
  then show ?thesis by (simp only: spec_complete_upd_same)
qed

text \<open>
  Claim C5, as the code has it.  For every ledger in which Day 2 is open, every game of
  Day 1 is decided; replacing the record of any one of them by a record whose entries are
  coerced to finite, unequal numbers leaves Day 2 open; removing the record of any one of
  them, or emptying both of its entries, locks Day 2; and emptying one entry, which is
  what one input event does, locks Day 2 if and only if the other entry is not coerced to
  a finite number other than 0, the empty entry being coerced to 0.
\<close>

theorem day2_gate_under_edits:
  assumes "buildGames teams cfg = Inr g"
    and "\<not> is_locked (computeLockedDays g st) ''Day 2''"
    and "i \<in> set [''D1G1'', ''D1G2'', ''D1G3'', ''D1G4'', ''D1G5'', ''D1G6'', ''D1G7'', ''D1G8'']"
  shows "spec_complete st i \<and>
     (\<forall>s' x y. Number (score_a s') = Fin x \<and> Number (score_b s') = Fin y \<and> x \<noteq> y \<longrightarrow>
        \<not> is_locked (computeLockedDays g (st\<lparr>scores := (scores st)(i \<mapsto> s')\<rparr>)) ''Day 2'') \<and>
     is_locked (computeLockedDays g (st\<lparr>scores := (scores st)(i := None)\<rparr>)) ''Day 2'' \<and>
     (\<forall>s'. score_a s' = JStr [] \<and> score_b s' = JStr [] \<longrightarrow>
        is_locked (computeLockedDays g (st\<lparr>scores := (scores st)(i \<mapsto> s')\<rparr>)) ''Day 2'') \<and>
     (\<forall>s'. score_a s' = JStr [] \<longrightarrow>
        (is_locked (computeLockedDays g (st\<lparr>scores := (scores st)(i \<mapsto> s')\<rparr>)) ''Day 2'' \<longleftrightarrow>
         \<not> (\<exists>y. Number (score_b s') = Fin y \<and> y \<noteq> 0))) \<and>
     (\<forall>s'. score_b s' = JStr [] \<longrightarrow>
        (is_locked (computeLockedDays g (st\<lparr>scores := (scores st)(i \<mapsto> s')\<rparr>)) ''Day 2'' \<longleftrightarrow>
         \<not> (\<exists>x. Number (score_a s') = Fin x \<and> x \<noteq> 0)))"
proof -
  note g2 = gates_built(2) [OF assms(1)]
  note upd = gate_after_update [OF assms]
  from assms(2,3) have c: "spec_complete st i"
    unfolding g2 by blast
  have gone: "is_locked (computeLockedDays g (st\<lparr>scores := (scores st)(i := None)\<rparr>)) ''Day 2''"
    unfolding g2 using assms(3) spec_complete_removed [of st i] by blast
  have keep: "\<forall>s' x y. Number (score_a s') = Fin x \<and> Number (score_b s') = Fin y \<and> x \<noteq> y \<longrightarrow>
        \<not> is_locked (computeLockedDays g (st\<lparr>scores := (scores st)(i \<mapsto> s')\<rparr>)) ''Day 2''"
    unfolding upd by blast
  have a0: "\<forall>s'. score_a s' = JStr [] \<longrightarrow>
        (is_locked (computeLockedDays g (st\<lparr>scores := (scores st)(i \<mapsto> s')\<rparr>)) ''Day 2'' \<longleftrightarrow>
         \<not> (\<exists>y. Number (score_b s') = Fin y \<and> y \<noteq> 0))"
    unfolding upd by (auto simp: string_to_number_empty)
  have b0: "\<forall>s'. score_b s' = JStr [] \<longrightarrow>
        (is_locked (computeLockedDays g (st\<lparr>scores := (scores st)(i \<mapsto> s')\<rparr>)) ''Day 2'' \<longleftrightarrow>
         \<not> (\<exists>x. Number (score_a s') = Fin x \<and> x \<noteq> 0))"
    unfolding upd by (auto simp: string_to_number_empty)
  have both: "\<forall>s'. score_a s' = JStr [] \<and> score_b s' = JStr [] \<longrightarrow>
        is_locked (computeLockedDays g (st\<lparr>scores := (scores st)(i \<mapsto> s')\<rparr>)) ''Day 2''"
    unfolding upd by (auto simp: string_to_number_empty)
  show ?thesis
    by (intro conjI) (fact c keep gone both a0 b0)+
qed

theorem day2_gate_under_edits_witness:
  "\<not> is_locked (computeLockedDays sample_games
        ((ledger_of day1_done)\<lparr>scores := (scores (ledger_of day1_done))(''D1G7'' \<mapsto>
            rec_of (JStr ''9'') (JStr ''4'') ''Team 13'' ''Team 14'')\<rparr>)) ''Day 2'' \<and>
   is_locked (computeLockedDays sample_games
        ((ledger_of day1_done)\<lparr>scores := (scores (ledger_of day1_done))(''D1G7'' := None)\<rparr>)) ''Day 2'' \<and>
   is_locked (computeLockedDays sample_games
        ((ledger_of day1_done)\<lparr>scores := (scores (ledger_of day1_done))(''D1G7'' \<mapsto>
            rec_of (JStr []) (JStr []) ''Team 13'' ''Team 14'')\<rparr>)) ''Day 2'' \<and>
   is_locked (computeLockedDays sample_games
        ((ledger_of day1_done)\<lparr>scores := (scores (ledger_of day1_done))(''D1G7'' \<mapsto>
            rec_of (JStr []) (JStr ''0'') ''Team 13'' ''Team 14'')\<rparr>)) ''Day 2'' \<and>
   \<not> is_locked (computeLockedDays sample_games
        ((ledger_of day1_done)\<lparr>scores := (scores (ledger_of day1_done))(''D1G7'' \<mapsto>
            rec_of (JStr ''1'') (JStr []) ''Team 13'' ''Team 14'')\<rparr>)) ''Day 2''"
proof -
  have op: "\<not> is_locked (computeLockedDays sample_games (ledger_of day1_done)) ''Day 2''"
    unfolding gates_built(2) [OF sample_games_built]
    by (simp add: spec_complete_def ledger_of_def day1_done_def rec_of_def string_to_number_samples)
  have mem: "''D1G7'' \<in> set [''D1G1'', ''D1G2'', ''D1G3'', ''D1G4'', ''D1G5'', ''D1G6'', ''D1G7'', ''D1G8'']"
    by simp
  note t = day2_gate_under_edits [OF sample_games_built op mem]
  have k: "\<not> is_locked (computeLockedDays sample_games
        ((ledger_of day1_done)\<lparr>scores := (scores (ledger_of day1_done))(''D1G7'' \<mapsto>
            rec_of (JStr ''9'') (JStr ''4'') ''Team 13'' ''Team 14'')\<rparr>)) ''Day 2''"
    using t [THEN conjunct2, THEN conjunct1, rule_format,
        of "rec_of (JStr ''9'') (JStr ''4'') ''Team 13'' ''Team 14''" 9 4]
    by (simp add: rec_of_def string_to_number_samples)
  have g: "is_locked (computeLockedDays sample_games
        ((ledger_of day1_done)\<lparr>scores := (scores (ledger_of day1_done))(''D1G7'' := None)\<rparr>)) ''Day 2''"
    using t by blast
  have b: "is_locked (computeLockedDays sample_games
        ((ledger_of day1_done)\<lparr>scores := (scores (ledger_of day1_done))(''D1G7'' \<mapsto>
            rec_of (JStr []) (JStr []) ''Team 13'' ''Team 14'')\<rparr>)) ''Day 2''"
    using t [THEN conjunct2, THEN conjunct2, THEN conjunct2, THEN conjunct1, rule_format,
        of "rec_of (JStr []) (JStr []) ''Team 13'' ''Team 14''"]
    by (simp add: rec_of_def)
  have z: "is_locked (computeLockedDays sample_games
        ((ledger_of day1_done)\<lparr>scores := (scores (ledger_of day1_done))(''D1G7'' \<mapsto>
            rec_of (JStr []) (JStr ''0'') ''Team 13'' ''Team 14'')\<rparr>)) ''Day 2''"
    using t [THEN conjunct2, THEN conjunct2, THEN conjunct2, THEN conjunct2, THEN conjunct1,
        rule_format, of "rec_of (JStr []) (JStr ''0'') ''Team 13'' ''Team 14''"]
    by (simp add: rec_of_def string_to_number_samples)
  have o: "\<not> is_locked (computeLockedDays sample_games
        ((ledger_of day1_done)\<lparr>scores := (scores (ledger_of day1_done))(''D1G7'' \<mapsto>
            rec_of (JStr ''1'') (JStr []) ''Team 13'' ''Team 14'')\<rparr>)) ''Day 2''"
    using t [THEN conjunct2, THEN conjunct2, THEN conjunct2, THEN conjunct2, THEN conjunct2,
        rule_format, of "rec_of (JStr ''1'') (JStr []) ''Team 13'' ''Team 14''"]
    by (simp add: rec_of_def string_to_number_samples)
  show ?thesis
    by (intro conjI) (fact k g b z o)+
qed

text \<open>
  Claim C5 as stated fails: with Day 1 decided and Day 2 open, the input event that empties
  entry a of the first game, decided 10 to 3, leaves the entries empty and 3, and Day 2
  open.
\<close>

theorem one_entry_emptied_counterexample:
  "\<not> is_locked (computeLockedDays sample_games (app_state sample_app)) ''Day 2'' \<and>
   map_option score_a (scores (app_state sample_app) ''D1G1'') = Some (JStr ''10'') \<and>
   map_option score_a (scores (app_state (score_input ''D1G1'' ''a'' [] sample_app)) ''D1G1'')
     = Some (JStr []) \<and>
   map_option score_b (scores (app_state (score_input ''D1G1'' ''a'' [] sample_app)) ''D1G1'')
     = Some (JStr ''3'') \<and>
   \<not> is_locked (computeLockedDays sample_games
        (app_state (score_input ''D1G1'' ''a'' [] sample_app))) ''Day 2''"
proof -
  have g: "buildGames (getTeamsFromAdmin None None) default_config = Inr (app_games sample_app)"
    by (simp add: sample_app_def sample_games_built)
  have mem: "''D1G1'' \<in> set [''D1G1'', ''D1G2'', ''D1G3'', ''D1G4'', ''D1G5'', ''D1G6'', ''D1G7'', ''D1G8'']"
    by simp
  have before: "\<forall>k \<in> set [''D1G1'', ''D1G2'', ''D1G3'', ''D1G4'', ''D1G5'', ''D1G6'', ''D1G7'', ''D1G8''].
      spec_complete (app_state sample_app) k"
    by (simp add: spec_complete_def sample_app_def ledger_of_def day1_done_def rec_of_def
        string_to_number_samples)
  then have op: "\<not> is_locked (computeLockedDays sample_games (app_state sample_app)) ''Day 2''"
    unfolding gates_built(2) [OF sample_games_built] by blast
  have r0: "scores (app_state sample_app) ''D1G1''
      = Some (rec_of (JStr ''10'') (JStr ''3'') ''Team 1'' ''Team 2'')"
    by (simp add: sample_app_def ledger_of_def day1_done_def)
  from score_input_day1 [OF g mem, of "''a''" "[]"] obtain s where
    s: "scores (app_state (score_input ''D1G1'' ''a'' [] sample_app)) ''D1G1'' = Some s"
      "score_a s = JStr []" "score_b s = JStr ''3''"
    by (auto simp: digits_only_def r0 rec_of_def)
  have c1: "spec_complete (app_state (score_input ''D1G1'' ''a'' [] sample_app)) ''D1G1''"
    by (simp add: spec_complete_def s string_to_number_empty string_to_number_samples)
  have rest: "spec_complete (app_state (score_input ''D1G1'' ''a'' [] sample_app)) k"
    if "k \<in> set [''D1G2'', ''D1G3'', ''D1G4'', ''D1G5'', ''D1G6'', ''D1G7'', ''D1G8'']" for k
  proof -
    from that have "k \<noteq> ''D1G1''" by auto
    moreover from that before have "spec_complete (app_state sample_app) k" by auto
    ultimately show ?thesis by (rule score_input_keeps_complete [OF g mem])
  qed
  have after: "\<not> is_locked (computeLockedDays sample_games
        (app_state (score_input ''D1G1'' ''a'' [] sample_app))) ''Day 2''"
    unfolding gates_built(2) [OF sample_games_built] using c1 rest by auto
  have a10: "map_option score_a (scores (app_state sample_app) ''D1G1'') = Some (JStr ''10'')"
    by (simp add: r0 rec_of_def)
  have ea: "map_option score_a (scores (app_state (score_input ''D1G1'' ''a'' [] sample_app)) ''D1G1'')
     = Some (JStr [])"
    and eb: "map_option score_b (scores (app_state (score_input ''D1G1'' ''a'' [] sample_app)) ''D1G1'')
     = Some (JStr ''3'')"
    by (simp_all add: s)
  show ?thesis
    by (intro conjI) (fact op a10 ea eb after)+
qed

subsection \<open>The bracket graph\<close>

lemma buildGames_topology:
  assumes "buildGames teams cfg = Inr g"
  shows "map (\<lambda>x. (gid x, day x, dependsOn x, label x)) (day1 g) =
        [(''D1G1'', ''Day 1'', [], None), (''D1G2'', ''Day 1'', [], None),
         (''D1G3'', ''Day 1'', [], None), (''D1G4'', ''Day 1'', [], None),
         (''D1G5'', ''Day 1'', [], None), (''D1G6'', ''Day 1'', [], None),
         (''D1G7'', ''Day 1'', [], None), (''D1G8'', ''Day 1'', [], None)]"
    and "map (\<lambda>x. (gid x, day x, dependsOn x, label x)) (day2 g) =
        [(''D2G1'', ''Day 2'', [''D1G1'', ''D1G2''], None),
         (''D2G2'', ''Day 2'', [''D1G3'', ''D1G4''], None),
         (''D2G3'', ''Day 2'', [''D1G5'', ''D1G6''], None),
         (''D2G4'', ''Day 2'', [''D1G7'', ''D1G8''], None)]"
    and "map (\<lambda>x. (gid x, day x, dependsOn x, label x)) (day3 g) =
        [(''D3SF1'', ''Day 3'', [''D2G1'', ''D2G2''], Some ''Semifinal 1''),
         (''D3SF2'', ''Day 3'', [''D2G3'', ''D2G4''], Some ''Semifinal 2''),
         (''D3F'', ''Day 3'', [''D3SF1'', ''D3SF2''], Some ''Championship Game'')]"
    and "allGames g = day1 g @ day2 g @ day3 g"
  using buildGames_Inr [OF assms]
  by (auto simp: day1_game_def later_game_def string_of_digit digit_char_def)

lemma default_config_parses:
  "\<forall>t \<in> set [or_default (day1MorningStart default_config) ''8:00 AM'',
               or_default (day1EveningStart default_config) ''4:00 PM'',
               or_default (day2MorningStart default_config) ''9:00 AM'',
               or_default (day2EveningStart default_config) ''5:00 PM'',
               or_default (day3MorningStart default_config) ''10:00 AM'',
               or_default (day3EveningStart default_config) ''5:00 PM'']. \<exists>p. parseTime12h t = Inr p"
  by (simp add: default_config_def or_default_def default_starts_parse)

lemma buildGames_day1_teams:
  assumes "buildGames teams cfg = Inr g" and "k < 8"
  shows "teamA (day1 g ! k) = nth_opt teams (2 * k)"
    and "teamB (day1 g ! k) = nth_opt teams (2 * k + 1)"
    and "dependsOn (day1 g ! k) = []"
proof -
  from assms(2) have "k \<in> {0, 1, 2, 3, 4, 5, 6, 7}" by auto
  with buildGames_Inr [OF assms(1)]
  show "teamA (day1 g ! k) = nth_opt teams (2 * k)"
    and "teamB (day1 g ! k) = nth_opt teams (2 * k + 1)"
    and "dependsOn (day1 g ! k) = []"
    by (auto simp: day1_game_def)
qed

text \<open>
  Claim C2.  For every list of team names (of sixteen names in particular) and every
  configuration whose six start times parse, \<open>buildGames\<close> returns a bracket of exactly
  fifteen games, eight of Day 1, four of Day 2 and three of Day 3 (two semifinals and the
  final), with the fixed topology: game k of Day 2 depends on games 2k-1 and 2k of Day 1,
  the first semifinal on games 1 and 2 of Day 2, the second on games 3 and 4, and the final
  on the two semifinals.  The team names occur nowhere in it.
\<close>

theorem bracket_topology:
  assumes "\<forall>t \<in> set [or_default (day1MorningStart cfg) ''8:00 AM'',
                      or_default (day1EveningStart cfg) ''4:00 PM'',
                      or_default (day2MorningStart cfg) ''9:00 AM'',
                      or_default (day2EveningStart cfg) ''5:00 PM'',
                      or_default (day3MorningStart cfg) ''10:00 AM'',
                      or_default (day3EveningStart cfg) ''5:00 PM'']. \<exists>p. parseTime12h t = Inr p"
  shows "\<exists>g. buildGames teams cfg = Inr g \<and>
      length (day1 g) = 8 \<and> length (day2 g) = 4 \<and> length (day3 g) = 3 \<and>
      length (allGames g) = 15 \<and> allGames g = day1 g @ day2 g @ day3 g \<and>
      map (\<lambda>x. (gid x, day x, dependsOn x, label x)) (day1 g) =
        [(''D1G1'', ''Day 1'', [], None), (''D1G2'', ''Day 1'', [], None),
         (''D1G3'', ''Day 1'', [], None), (''D1G4'', ''Day 1'', [], None),
         (''D1G5'', ''Day 1'', [], None), (''D1G6'', ''Day 1'', [], None),
         (''D1G7'', ''Day 1'', [], None), (''D1G8'', ''Day 1'', [], None)] \<and>
      map (\<lambda>x. (gid x, day x, dependsOn x, label x)) (day2 g) =
        [(''D2G1'', ''Day 2'', [''D1G1'', ''D1G2''], None),
         (''D2G2'', ''Day 2'', [''D1G3'', ''D1G4''], None),
         (''D2G3'', ''Day 2'', [''D1G5'', ''D1G6''], None),
         (''D2G4'', ''Day 2'', [''D1G7'', ''D1G8''], None)] \<and>
      map (\<lambda>x. (gid x, day x, dependsOn x, label x)) (day3 g) =
        [(''D3SF1'', ''Day 3'', [''D2G1'', ''D2G2''], Some ''Semifinal 1''),
         (''D3SF2'', ''Day 3'', [''D2G3'', ''D2G4''], Some ''Semifinal 2''),
         (''D3F'', ''Day 3'', [''D3SF1'', ''D3SF2''], Some ''Championship Game'')]"
proof -
  from buildGames_ok [OF assms] obtain g where g: "buildGames teams cfg = Inr g" by blast
  note t = buildGames_topology [OF g]
  have "length (map (\<lambda>x. (gid x, day x, dependsOn x, label x)) (day1 g)) = 8"
    unfolding t(1) by simp
  then have l1: "length (day1 g) = 8" by (simp only: length_map)
  have "length (map (\<lambda>x. (gid x, day x, dependsOn x, label x)) (day2 g)) = 4"
    unfolding t(2) by simp
  then have l2: "length (day2 g) = 4" by (simp only: length_map)
  have "length (map (\<lambda>x. (gid x, day x, dependsOn x, label x)) (day3 g)) = 3"
    unfolding t(3) by simp
  then have l3: "length (day3 g) = 3" by (simp only: length_map)
  have l15: "length (allGames g) = 15" by (simp add: t(4) l1 l2 l3)
  show ?thesis
    by (intro exI [of _ g] conjI) (fact g l1 l2 l3 l15 t)+
qed

theorem bracket_topology_witness:
  "length (allGames sample_games) = 15 \<and>
   map (\<lambda>x. (gid x, day x, dependsOn x, label x)) (day3 sample_games) =
        [(''D3SF1'', ''Day 3'', [''D2G1'', ''D2G2''], Some ''Semifinal 1''),
         (''D3SF2'', ''Day 3'', [''D2G3'', ''D2G4''], Some ''Semifinal 2''),
         (''D3F'', ''Day 3'', [''D3SF1'', ''D3SF2''], Some ''Championship Game'')]"
  using bracket_topology [OF default_config_parses, of "getTeamsFromAdmin None None"]
proof (elim exE conjE)
  fix g
  assume g: "buildGames (getTeamsFromAdmin None None) default_config = Inr g"
    and l: "length (allGames g) = 15"
    and m: "map (\<lambda>x. (gid x, day x, dependsOn x, label x)) (day3 g) =
        [(''D3SF1'', ''Day 3'', [''D2G1'', ''D2G2''], Some ''Semifinal 1''),
         (''D3SF2'', ''Day 3'', [''D2G3'', ''D2G4''], Some ''Semifinal 2''),
         (''D3F'', ''Day 3'', [''D3SF1'', ''D3SF2''], Some ''Championship Game'')]"
  from g have sg: "sample_games = g" by (simp add: sample_games_def)
  show ?thesis unfolding sg using l m by (rule conjI)
qed

subsection \<open>Team names of white space\<close>

lemma trim_all_space:
  assumes "list_all is_space w"
  shows "trim w = []"
proof -
  from assms have "dropWhile is_space w = []"
    by (simp only: dropWhile_eq_Nil_conv list_all_iff)
  then show ?thesis
    unfolding trim_def by (simp only: rev.simps dropWhile.simps)
qed

lemma getTeamsFromAdmin_length: "length (getTeamsFromAdmin ov wt) = 16"
  by (simp add: getTeamsFromAdmin_def Let_def)

lemma getTeamsFromAdmin_nth:
  assumes "i < 16"
  shows "getTeamsFromAdmin ov wt ! i =
     trim (or_default (nth_opt (case ov of Some ts \<Rightarrow> ts
                                | None \<Rightarrow> (case wt of Some ts \<Rightarrow> ts | None \<Rightarrow> [])) i)
             (''Team '' @ string_of_nat (i + 1)))"
  using assms by (simp add: getTeamsFromAdmin_def Let_def del: upt_Suc)

lemma resolve_no_teams_no_deps:
  assumes "\<not> (truthy (teamA g) \<and> truthy (teamB g))" and "dependsOn g = []"
  shows "resolveTeamsForGame g st = (''TBD'', ''TBD'')"
proof -
  have "truthy None = False" by (simp add: truthy_def)
  with assms show ?thesis
    by (auto simp: resolveTeamsForGame_def Let_def nth_opt_def)
qed

lemma blank_name_games_built:
  "buildGames (getTeamsFromAdmin (Some [''Lakers'', ''   '']) None) default_config = Inr blank_name_games"
proof -
  have "\<exists>g. buildGames (getTeamsFromAdmin (Some [''Lakers'', ''   '']) None) default_config = Inr g"
    by (rule buildGames_ok [OF default_config_parses])
  then show ?thesis by (auto simp: blank_name_games_def)
qed

text \<open>
  Claim C10.  If slot \<open>i\<close> of the list the administrator supplies (as the override or as the
  global list) is a non-empty string of white space, the name of that slot is the empty
  string, not the placeholder; the game of Day 1 seeded with it then has an empty team
  name and no dependencies, and \<open>resolveTeamsForGame\<close> gives \<open>TBD\<close> for both of its
  opponents, whatever the ledger.
\<close>

theorem blank_team_name_is_TBD:
  assumes "teamsOverride = Some adminTeams \<or> (teamsOverride = None \<and> windowTeams = Some adminTeams)"
    and "i < 16" and "nth_opt adminTeams i = Some w" and "w \<noteq> []" and "list_all is_space w"
    and "buildGames (getTeamsFromAdmin teamsOverride windowTeams) cfg = Inr g"
  shows "getTeamsFromAdmin teamsOverride windowTeams ! i = [] \<and>
     (teamA (day1 g ! (i div 2)) = Some [] \<or> teamB (day1 g ! (i div 2)) = Some []) \<and>
     dependsOn (day1 g ! (i div 2)) = [] \<and>
     resolveTeamsForGame (day1 g ! (i div 2)) st = (''TBD'', ''TBD'')"
proof -
  let ?teams = "getTeamsFromAdmin teamsOverride windowTeams"
  have src: "(case teamsOverride of Some ts \<Rightarrow> ts
              | None \<Rightarrow> (case windowTeams of Some ts \<Rightarrow> ts | None \<Rightarrow> [])) = adminTeams"
    using assms(1) by auto
  have blank: "?teams ! i = []"
    unfolding getTeamsFromAdmin_nth [OF assms(2)] src assms(3)
    using assms(4,5) by (simp add: or_default_def trim_all_space)
  have k: "i div 2 < 8" using assms(2) by simp
  note d = buildGames_day1_teams [OF assms(6) k]
  have len: "length ?teams = 16" by (rule getTeamsFromAdmin_length)
  have i2: "i = 2 * (i div 2) \<or> i = 2 * (i div 2) + 1" by presburger
  have some: "teamA (day1 g ! (i div 2)) = Some [] \<or> teamB (day1 g ! (i div 2)) = Some []"
  proof (rule disjE [OF i2])
    assume e: "i = 2 * (i div 2)"
    have "nth_opt ?teams (2 * (i div 2)) = Some (?teams ! i)"
      using assms(2) e by (simp add: nth_opt_def len)
    then show ?thesis by (simp add: d(1) blank)
  next
    assume e: "i = 2 * (i div 2) + 1"
    have "nth_opt ?teams (2 * (i div 2) + 1) = Some (?teams ! i)"
      using assms(2) e by (simp add: nth_opt_def len)
    then show ?thesis by (simp add: d(2) blank)
  qed
  then have "\<not> (truthy (teamA (day1 g ! (i div 2))) \<and> truthy (teamB (day1 g ! (i div 2))))"
    by (auto simp: truthy_def)
  from resolve_no_teams_no_deps [OF this d(3)] blank some d(3) show ?thesis by blast
qed

theorem blank_team_name_is_TBD_witness:
  "getTeamsFromAdmin (Some [''Lakers'', ''   '']) None ! 1 = [] \<and>
   resolveTeamsForGame (day1 blank_name_games ! 0) (ledger_of []) = (''TBD'', ''TBD'')"
  using blank_team_name_is_TBD [of "Some [''Lakers'', ''   '']" "[''Lakers'', ''   '']" None 1 "''   ''"
      default_config blank_name_games "ledger_of []", OF _ _ _ _ _ blank_name_games_built]
  by (simp add: nth_opt_def is_space_def)

subsection \<open>Reset\<close>







subsection \<open>The scores endpoint\<close>

lemma num_eq_finite: "isFinite x \<Longrightarrow> isFinite y \<Longrightarrow> num_eq x y \<longleftrightarrow> x = y"
  by (cases x; cases y) auto

text \<open>
  Claim C6, as the code has it.  For a request of an allowed user that names a game, the
  endpoint answers 400 with the reason \<open>Scores must be numbers\<close> when one of the two
  values is not coerced to a finite number, and 400 with \<open>No ties allowed\<close> when the two
  numbers are equal, in both cases leaving the table as it is; every other pair of values
  is written to the table, whatever its sign and whether or not it is whole.
\<close>

theorem submit_validation:
  assumes "req_method req = ''POST''"
    and "req_authorization req = Some auth" and "startsWith auth ''Bearer ''"
    and "getUser (trim (drop (length ''Bearer '') auth)) = Some userId" and "userId \<in> set allowlist"
    and "req_gameId req = Some gameId" and "gameId \<noteq> []"
  shows "handler allowlist getUser dbError req rows =
     (if \<not> isFinite (Number (req_a req)) \<or> \<not> isFinite (Number (req_b req))
      then (JsonError 400 ''Scores must be numbers'', rows)
      else if Number (req_a req) = Number (req_b req)
      then (JsonError 400 ''No ties allowed'', rows)
      else (case dbError of
              Some msg \<Rightarrow> (JsonError 500 msg, rows)
            | None \<Rightarrow> (JsonOk, AList.update gameId (Number (req_a req), Number (req_b req)) rows)))"
proof -
  from assms(3) have "auth \<noteq> []" by (auto simp: startsWith_def)
  then have a: "or_default (req_authorization req) [] = auth"
    by (simp add: or_default_def assms(2))
  have t: "truthy (req_gameId req)" by (simp add: truthy_def assms(6,7))
  show ?thesis
    using assms(1,3,4,5) t
    by (auto simp: handler_def Let_def a assms(6) num_eq_finite split: option.splits)
qed

theorem submit_validation_witness:
  "handler [''admin-1''] demo_getUser None (post_req (JNum (Fin 5)) (JStr ''5'')) [(''D1G1'', Fin 2, Fin 1)]
     = (JsonError 400 ''No ties allowed'', [(''D1G1'', Fin 2, Fin 1)]) \<and>
   handler [''admin-1''] demo_getUser None (post_req (JNum (Fin 5)) JUndefined) [(''D1G1'', Fin 2, Fin 1)]
     = (JsonError 400 ''Scores must be numbers'', [(''D1G1'', Fin 2, Fin 1)]) \<and>
   handler [''admin-1''] demo_getUser None (post_req (JNum (Fin 5)) (JNum (Fin 3))) [(''D1G1'', Fin 2, Fin 1)]
     = (JsonOk, [(''D1G1'', Fin 5, Fin 3)])"
proof -
  have v: "handler [''admin-1''] demo_getUser None (post_req x y) [(''D1G1'', Fin 2, Fin 1)] =
     (if \<not> isFinite (Number (req_a (post_req x y))) \<or> \<not> isFinite (Number (req_b (post_req x y)))
      then (JsonError 400 ''Scores must be numbers'', [(''D1G1'', Fin 2, Fin 1)])
      else if Number (req_a (post_req x y)) = Number (req_b (post_req x y))
      then (JsonError 400 ''No ties allowed'', [(''D1G1'', Fin 2, Fin 1)])
      else (JsonOk, AList.update ''D1G1''
              (Number (req_a (post_req x y)), Number (req_b (post_req x y)))
              [(''D1G1'', Fin 2, Fin 1)]))" for x y
    using submit_validation [where req = "post_req x y" and auth = "''Bearer tok''"
        and getUser = demo_getUser and userId = "''admin-1''" and allowlist = "[''admin-1'']"
        and gameId = "''D1G1''" and dbError = None and rows = "[(''D1G1'', Fin 2, Fin 1)]"]
    by (simp add: post_req_def startsWith_def demo_getUser_def trim_def is_space_def)
  show ?thesis
    unfolding v by (simp add: post_req_def string_to_number_samples)
qed

text \<open>
  Claim C6 as stated fails: the endpoint stores a negative score, and one that is not an
  integer.
\<close>

theorem negative_score_counterexample:
  "handler [''admin-1''] demo_getUser None (post_req (JNum (Fin (- 1))) (JNum (Fin 3))) []
     = (JsonOk, [(''D1G1'', Fin (- 1), Fin 3)]) \<and>
   handler [''admin-1''] demo_getUser None (post_req (JNum (Fin (3 / 2))) (JNum (Fin 1))) []
     = (JsonOk, [(''D1G1'', Fin (3 / 2), Fin 1)])"
  by (simp add: handler_def Let_def post_req_def or_default_def startsWith_def demo_getUser_def
      trim_def is_space_def truthy_def)

subsection \<open>The clock parser\<close>

text \<open>The strings that the pattern of \<open>match_time\<close> matches, and the groups it gives.\<close>

lemma colon_not_digit: "\<not> is_digit CHR '':''"
  by (simp add: is_digit_def)

lemma meridiem_shape:
  assumes "toUpperCase ap = ''AM'' \<or> toUpperCase ap = ''PM''"
  shows "ap \<noteq> []" and "\<not> is_space (hd ap)"
proof -
  from assms obtain c d where ap: "ap = [c, d]"
    by (cases ap; cases "tl ap"; auto simp: toUpperCase_def)
  then show "ap \<noteq> []" by simp
  from assms ap have "upper_char c = CHR ''A'' \<or> upper_char c = CHR ''P''"
    by (auto simp: toUpperCase_def)
  then have "\<not> is_space c"
    by (auto simp: is_space_def upper_char_def)
  with ap show "\<not> is_space (hd ap)" by simp
qed

lemma takeWhile_take2:
  assumes "h \<noteq> []" "length h \<le> 2" "list_all is_digit h"
  shows "takeWhile is_digit (take 2 (h @ CHR '':'' # rest)) = h"
proof -
  from assms(1,2) consider c where "h = [c]" | c d where "h = [c, d]"
    by (cases h; cases "tl h"; cases "tl (tl h)"; auto)
  then show ?thesis
    using assms(3) by cases (simp_all add: colon_not_digit)
qed

lemma match_time_form:
  assumes "t = h @ '':'' @ m @ ws @ ap"
    and "h \<noteq> []" "length h \<le> 2" "list_all is_digit h"
    and "length m = 2" "list_all is_digit m"
    and "list_all is_space ws"
    and "toUpperCase ap = ''AM'' \<or> toUpperCase ap = ''PM''"
  shows "match_time t = Some (h, m, ap)"
proof -
  have g1: "takeWhile is_digit (take 2 t) = h"
    unfolding assms(1) using takeWhile_take2 [OF assms(2,3,4)] by simp
  have r1: "drop (length h) t = CHR '':'' # m @ ws @ ap"
    by (simp add: assms(1))
  have g2: "take 2 (m @ ws @ ap) = m" and r3: "drop 2 (m @ ws @ ap) = ws @ ap"
    using assms(5) by simp_all
  have dw: "dropWhile is_space (ws @ ap) = ap"
    using assms(7) meridiem_shape [OF assms(8)]
    by (simp add: dropWhile_append list_all_iff dropWhile_hd)
  show ?thesis
    unfolding match_time_def Let_def g1 r1
    using assms(2,5,6,8) by (simp add: g2 r3 dw)
qed

lemma match_time_Some:
  assumes "match_time t = Some (h, m, ap)"
  shows "\<exists>ws. t = h @ '':'' @ m @ ws @ ap \<and> h \<noteq> [] \<and> length h \<le> 2 \<and> list_all is_digit h \<and>
            length m = 2 \<and> list_all is_digit m \<and> list_all is_space ws \<and>
            (toUpperCase ap = ''AM'' \<or> toUpperCase ap = ''PM'')"
proof -
  define g1 where "g1 = takeWhile is_digit (take 2 t)"
  have pre: "g1 = take (length g1) t"
  proof -
    have "g1 = take (length g1) (take 2 t)"
      unfolding g1_def by (rule takeWhile_eq_take)
    moreover have "length g1 \<le> 2"
      unfolding g1_def using length_takeWhile_le [of is_digit "take 2 t"] by simp
    ultimately show ?thesis by (simp add: min_def)
  qed
  have dig: "list_all is_digit g1"
    unfolding g1_def list_all_iff using set_takeWhileD by fastforce
  have len: "length g1 \<le> 2"
    unfolding g1_def using length_takeWhile_le [of is_digit "take 2 t"] by simp
  from assms obtain r2 where
    ne: "g1 \<noteq> []" and r1: "drop (length g1) t = CHR '':'' # r2"
    and m2: "length (take 2 r2) = 2" and md: "list_all is_digit (take 2 r2)"
    and up: "toUpperCase (dropWhile is_space (drop 2 r2)) = ''AM'' \<or>
             toUpperCase (dropWhile is_space (drop 2 r2)) = ''PM''"
    and res: "h = g1" "m = take 2 r2" "ap = dropWhile is_space (drop 2 r2)"
    unfolding match_time_def Let_def g1_def [symmetric]
    by (auto split: if_splits list.splits)
  have "t = take (length g1) t @ drop (length g1) t" by simp
  also have "\<dots> = g1 @ CHR '':'' # r2" using pre r1 by simp
  also have "r2 = take 2 r2 @ drop 2 r2" by simp
  also have "drop 2 r2 = takeWhile is_space (drop 2 r2) @ dropWhile is_space (drop 2 r2)" by simp
  finally have t: "t = h @ '':'' @ m @ takeWhile is_space (drop 2 r2) @ ap"
    by (simp add: res)
  have sp: "list_all is_space (takeWhile is_space (drop 2 r2))"
    unfolding list_all_iff using set_takeWhileD by fastforce
  from t ne len dig m2 md sp up show ?thesis
    unfolding res [symmetric] by blast
qed

text \<open>
  Claim C7, as the code has it.  \<open>parseTime12h\<close> accepts exactly the strings that, once
  trimmed, consist of one or two decimal digits, a colon, two decimal digits, any amount
  of white space and the letters AM or PM in either case; it then returns the hour, moved
  to the 24-hour clock, and the minute.  On every other string it throws.  Neither the hour
  nor the minute is checked against a range.
\<close>

theorem parseTime12h_accepts:
  "(\<forall>h m ws ap.
      trim str = h @ '':'' @ m @ ws @ ap \<and> h \<noteq> [] \<and> length h \<le> 2 \<and> list_all is_digit h \<and>
      length m = 2 \<and> list_all is_digit m \<and> list_all is_space ws \<and>
      (toUpperCase ap = ''AM'' \<or> toUpperCase ap = ''PM'') \<longrightarrow>
      parseTime12h str =
        Inr (if toUpperCase ap = ''PM'' \<and> digits_val h \<noteq> 12 then digits_val h + 12
             else if toUpperCase ap = ''AM'' \<and> digits_val h = 12 then 0
             else digits_val h,
             digits_val m)) \<and>
   (\<not> (\<exists>h m ws ap.
      trim str = h @ '':'' @ m @ ws @ ap \<and> h \<noteq> [] \<and> length h \<le> 2 \<and> list_all is_digit h \<and>
      length m = 2 \<and> list_all is_digit m \<and> list_all is_space ws \<and>
      (toUpperCase ap = ''AM'' \<or> toUpperCase ap = ''PM'')) \<longrightarrow>
      parseTime12h str = Inl (BadTimeFormat str))"
proof (intro conjI allI impI)
  fix h m ws ap
  assume f: "trim str = h @ '':'' @ m @ ws @ ap \<and> h \<noteq> [] \<and> length h \<le> 2 \<and> list_all is_digit h \<and>
      length m = 2 \<and> list_all is_digit m \<and> list_all is_space ws \<and>
      (toUpperCase ap = ''AM'' \<or> toUpperCase ap = ''PM'')"
  then have p: "trim str = h @ '':'' @ m @ ws @ ap" "h \<noteq> []" "length h \<le> 2"
      "list_all is_digit h" "length m = 2" "list_all is_digit m" "list_all is_space ws"
      "toUpperCase ap = ''AM'' \<or> toUpperCase ap = ''PM''"
    by blast+
  have "match_time (trim str) = Some (h, m, ap)"
    by (rule match_time_form [OF p])
  with f show "parseTime12h str =
        Inr (if toUpperCase ap = ''PM'' \<and> digits_val h \<noteq> 12 then digits_val h + 12
             else if toUpperCase ap = ''AM'' \<and> digits_val h = 12 then 0
             else digits_val h,
             digits_val m)"
    by (auto simp: parseTime12h_def Let_def)
next
  assume n: "\<not> (\<exists>h m ws ap.
      trim str = h @ '':'' @ m @ ws @ ap \<and> h \<noteq> [] \<and> length h \<le> 2 \<and> list_all is_digit h \<and>
      length m = 2 \<and> list_all is_digit m \<and> list_all is_space ws \<and>
      (toUpperCase ap = ''AM'' \<or> toUpperCase ap = ''PM''))"
  have "match_time (trim str) = None"
  proof (cases "match_time (trim str)")
    case None
    then show ?thesis .
  next
    case (Some r)
    obtain h m ap where "r = (h, m, ap)" by (cases r) auto
    with Some match_time_Some [of "trim str" h m ap] n show ?thesis by blast
  qed
  then show "parseTime12h str = Inl (BadTimeFormat str)"
    by (simp add: parseTime12h_def)
qed

theorem parseTime12h_accepts_witness:
  "parseTime12h '' 8:05pm'' = Inr (20, 5) \<and> parseTime12h ''8 PM'' = Inl (BadTimeFormat ''8 PM'')"
proof -
  have t1: "trim '' 8:05pm'' = ''8'' @ '':'' @ ''05'' @ [] @ ''pm''"
    and t2: "trim ''8 PM'' = ''8 PM''"
    by (simp_all add: trim_def is_space_def)
  have "\<not> (\<exists>h m ws ap.
      trim ''8 PM'' = h @ '':'' @ m @ ws @ ap \<and> h \<noteq> [] \<and> length h \<le> 2 \<and> list_all is_digit h \<and>
      length m = 2 \<and> list_all is_digit m \<and> list_all is_space ws \<and>
      (toUpperCase ap = ''AM'' \<or> toUpperCase ap = ''PM''))"
  proof
    assume "\<exists>h m ws ap.
      trim ''8 PM'' = h @ '':'' @ m @ ws @ ap \<and> h \<noteq> [] \<and> length h \<le> 2 \<and> list_all is_digit h \<and>
      length m = 2 \<and> list_all is_digit m \<and> list_all is_space ws \<and>
      (toUpperCase ap = ''AM'' \<or> toUpperCase ap = ''PM'')"
    then obtain h m ws ap where "''8 PM'' = h @ '':'' @ m @ ws @ ap"
      unfolding t2 by blast
    then have "set ''8 PM'' = set (h @ '':'' @ m @ ws @ ap)" by (rule arg_cong)
    then have "CHR '':'' \<in> set ''8 PM''" by simp
    then show False by simp
  qed
  with parseTime12h_accepts [of "''8 PM''"]
  have b: "parseTime12h ''8 PM'' = Inl (BadTimeFormat ''8 PM'')" by blast
  have "parseTime12h '' 8:05pm'' =
        Inr (if toUpperCase ''pm'' = ''PM'' \<and> digits_val ''8'' \<noteq> 12 then digits_val ''8'' + 12
             else if toUpperCase ''pm'' = ''AM'' \<and> digits_val ''8'' = 12 then 0
             else digits_val ''8'',
             digits_val ''05'')"
    using parseTime12h_accepts [of "'' 8:05pm''", THEN conjunct1, rule_format,
        of "''8''" "''05''" "[]" "''pm''"] t1
    by (simp add: is_digit_def toUpperCase_def upper_char_def)
  then have a: "parseTime12h '' 8:05pm'' = Inr (20, 5)"
    by (simp add: toUpperCase_def upper_char_def digits_val_def digit_val_def)
  from a b show ?thesis by (rule conjI)
qed

text \<open>
  Claim C7 as stated fails: a string whose hour is 13 and whose minute is 75 is parsed, and
  so is one whose hour is 0.
\<close>

theorem hour_out_of_range_counterexample:
  "parseTime12h ''13:75 PM'' = Inr (25, 75) \<and> parseTime12h ''0:00 AM'' = Inr (0, 0)"
  by (simp add: parseTime12h_def match_time_def trim_def is_space_def is_digit_def
        toUpperCase_def upper_char_def digits_val_def digit_val_def Let_def)

end
